theory Spec2Isabelle
  imports Main "HOL-Library.Word"
begin

unbundle bit_operations_syntax

section \<open>Data model\<close>

subsection \<open>Instructions\<close>

text \<open>
  Modelled from the spec: the instruction record and the instruction-building macros
  (\<^verbatim>\<open>MOV\<close>, \<^verbatim>\<open>MOV_IMM\<close>, \<^verbatim>\<open>ALU\<close>, \<^verbatim>\<open>ALU_IMM\<close>, \<^verbatim>\<open>JMP_IMM\<close>, \<^verbatim>\<open>CALL\<close>, \<^verbatim>\<open>EXIT\<close>,
  \<^verbatim>\<open>STW_IMM\<close>, \<^verbatim>\<open>STXDW\<close>, \<^verbatim>\<open>LDXDW\<close>) live in \<^verbatim>\<open>compile.h\<close> and the kernel's
  \<^verbatim>\<open>bpf.h\<close>, which are not part of \<^verbatim>\<open>src/\<close>. Section 3 of the specification describes an
  instruction as a record of operation class, operation code, size qualifier, source-kind
  qualifier, a destination and a source register id (4 bits each), a signed 16-bit offset
  and a signed 32-bit immediate. The operation byte is kept structured (class with its
  qualifiers); the four operand fields have their machine widths, so that every
  assignment of a wider C value to a field is a truncation (\<open>ucast\<close>).
  The argument order of each macro is the one \<^verbatim>\<open>compile.c\<close> calls it with.
\<close>

datatype alu_op =
    ALU_OP_ADD | ALU_OP_SUB | ALU_OP_MUL | ALU_OP_DIV | ALU_OP_OR | ALU_OP_AND
  | ALU_OP_LSH | ALU_OP_RSH | ALU_OP_NEG | ALU_OP_MOD | ALU_OP_XOR | ALU_OP_MOV

datatype jmp_op = JMP_JA | JMP_JEQ | JMP_JGT | JMP_JGE | JMP_JNE | JMP_CALL | JMP_EXIT

datatype bpf_size = BPF_B | BPF_H | BPF_W | BPF_DW

datatype bpf_src = BPF_K | BPF_X

datatype bpf_code =
    BPF_ALU64 alu_op bpf_src
  | BPF_JMP jmp_op bpf_src
  | BPF_ST bpf_size
  | BPF_STX bpf_size
  | BPF_LDX bpf_size
  | BPF_LD bpf_size

record bpf_insn =
  code :: bpf_code
  dst_reg :: "4 word"
  src_reg :: "4 word"
  off :: "16 word"
  imm :: "32 word"

datatype bpf_func_id =
    BPF_FUNC_map_lookup_elem | BPF_FUNC_map_update_elem | BPF_FUNC_map_delete_elem
  | BPF_FUNC_probe_read | BPF_FUNC_ktime_get_ns | BPF_FUNC_trace_printk
  | BPF_FUNC_get_current_pid_tgid | BPF_FUNC_get_current_uid_gid
  | BPF_FUNC_get_current_comm

text \<open>
  The helpers that \<^verbatim>\<open>bpf_func_name\<close> knows, with their numbers in the kernel's
  \<^verbatim>\<open>enum bpf_func_id\<close>, which a call instruction carries as its immediate.
\<close>

fun func_imm :: "bpf_func_id \<Rightarrow> 32 word" where
  "func_imm BPF_FUNC_map_lookup_elem = 1"
| "func_imm BPF_FUNC_map_update_elem = 2"
| "func_imm BPF_FUNC_map_delete_elem = 3"
| "func_imm BPF_FUNC_probe_read = 4"
| "func_imm BPF_FUNC_ktime_get_ns = 5"
| "func_imm BPF_FUNC_trace_printk = 6"
| "func_imm BPF_FUNC_get_current_pid_tgid = 14"
| "func_imm BPF_FUNC_get_current_uid_gid = 15"
| "func_imm BPF_FUNC_get_current_comm = 16"

definition INSN :: "bpf_code \<Rightarrow> 4 word \<Rightarrow> 4 word \<Rightarrow> 16 word \<Rightarrow> 32 word \<Rightarrow> bpf_insn" where
  "INSN c d s f i = \<lparr>code = c, dst_reg = d, src_reg = s, off = f, imm = i\<rparr>"

definition MOV :: "4 word \<Rightarrow> 4 word \<Rightarrow> bpf_insn" where
  "MOV d s = INSN (BPF_ALU64 ALU_OP_MOV BPF_X) d s 0 0"

definition MOV_IMM :: "4 word \<Rightarrow> 32 word \<Rightarrow> bpf_insn" where
  "MOV_IMM d i = INSN (BPF_ALU64 ALU_OP_MOV BPF_K) d 0 0 i"

definition ALU :: "alu_op \<Rightarrow> 4 word \<Rightarrow> 4 word \<Rightarrow> bpf_insn" where
  "ALU opr d s = INSN (BPF_ALU64 opr BPF_X) d s 0 0"

definition ALU_IMM :: "alu_op \<Rightarrow> 4 word \<Rightarrow> 32 word \<Rightarrow> bpf_insn" where
  "ALU_IMM opr d i = INSN (BPF_ALU64 opr BPF_K) d 0 0 i"

definition JMP_IMM :: "jmp_op \<Rightarrow> 4 word \<Rightarrow> 32 word \<Rightarrow> 16 word \<Rightarrow> bpf_insn" where
  "JMP_IMM opr d i f = INSN (BPF_JMP opr BPF_K) d 0 f i"

definition CALL :: "bpf_func_id \<Rightarrow> bpf_insn" where
  "CALL fn = INSN (BPF_JMP JMP_CALL BPF_K) 0 0 0 (func_imm fn)"

definition EXIT :: bpf_insn where
  "EXIT = INSN (BPF_JMP JMP_EXIT BPF_K) 0 0 0 0"

definition STW_IMM :: "4 word \<Rightarrow> 16 word \<Rightarrow> 32 word \<Rightarrow> bpf_insn" where
  "STW_IMM d f i = INSN (BPF_ST BPF_W) d 0 f i"

definition STXDW :: "4 word \<Rightarrow> 16 word \<Rightarrow> 4 word \<Rightarrow> bpf_insn" where
  "STXDW d f s = INSN (BPF_STX BPF_DW) d s f 0"

definition LDXDW :: "4 word \<Rightarrow> 16 word \<Rightarrow> 4 word \<Rightarrow> bpf_insn" where
  "LDXDW d f s = INSN (BPF_LDX BPF_DW) d s f 0"

abbreviation BPF_REG_0 :: "4 word" where "BPF_REG_0 \<equiv> 0"
abbreviation BPF_REG_1 :: "4 word" where "BPF_REG_1 \<equiv> 1"
abbreviation BPF_REG_2 :: "4 word" where "BPF_REG_2 \<equiv> 2"
abbreviation BPF_REG_3 :: "4 word" where "BPF_REG_3 \<equiv> 3"
abbreviation BPF_REG_4 :: "4 word" where "BPF_REG_4 \<equiv> 4"
abbreviation BPF_REG_9 :: "4 word" where "BPF_REG_9 \<equiv> 9"
abbreviation BPF_REG_10 :: "4 word" where "BPF_REG_10 \<equiv> 10"

subsection \<open>Nodes\<close>

text \<open>
  Modelled from the spec: \<^verbatim>\<open>lang/ast.h\<close> (the declaration of \<^verbatim>\<open>node_t\<close>) is not part of
  \<^verbatim>\<open>src/\<close>. The fields are the ones \<^verbatim>\<open>compile.c\<close> reads. \<^verbatim>\<open>n->dyn\<close> is the resolved-value
  descriptor: \<^verbatim>\<open>size\<close> is a \<^verbatim>\<open>size_t\<close>, \<^verbatim>\<open>addr\<close> an \<^verbatim>\<open>ssize_t\<close> (both 64 bits), \<^verbatim>\<open>reg\<close>
  an \<^verbatim>\<open>int\<close>. The C union of per-kind members is the datatype \<open>payload\<close>, and the
  node's \<^verbatim>\<open>type\<close> tag is read off the payload, so a node always carries the members of
  its own kind. The back pointer \<^verbatim>\<open>n->parent\<close> is read in one place only
  (\<^verbatim>\<open>emit_map_load\<close>), for the parent's \<^verbatim>\<open>type\<close> and \<^verbatim>\<open>assign.op\<close>; the node carries these
  two values. A statement list (nodes chained by \<^verbatim>\<open>next\<close>) is a list. A string literal's
  bytes are the memory \<^verbatim>\<open>n->string\<close> points to.
\<close>

datatype type_t =
    TYPE_NONE | TYPE_SCRIPT | TYPE_PROBE | TYPE_CALL | TYPE_ASSIGN | TYPE_RETURN
  | TYPE_BINOP | TYPE_NOT | TYPE_MAP | TYPE_REC | TYPE_INT | TYPE_STR

datatype loc_t = LOC_NOWHERE | LOC_REG | LOC_STACK

record dyn_t =
  dyn_size :: "64 word"
  dyn_loc :: loc_t
  dyn_reg :: "32 word"
  dyn_addr :: "64 word"

record parent_t =
  parent_type :: type_t
  parent_assign_op :: alu_op

datatype node = Node (dyn: dyn_t) (parent: parent_t) (u: payload)
and payload =
    P_None
  | P_Script "node list"
  | P_Probe "node option" "node list"
  | P_Call "node list"
  | P_Assign alu_op node node
  | P_Return node
  | P_Binop alu_op node node
  | P_Not node
  | P_Map node
  | P_Rec "node list"
  | P_Int "64 word"
  | P_Str "8 word list"

fun payload_type :: "payload \<Rightarrow> type_t" where
  "payload_type P_None = TYPE_NONE"
| "payload_type (P_Script _) = TYPE_SCRIPT"
| "payload_type (P_Probe _ _) = TYPE_PROBE"
| "payload_type (P_Call _) = TYPE_CALL"
| "payload_type (P_Assign _ _ _) = TYPE_ASSIGN"
| "payload_type (P_Return _) = TYPE_RETURN"
| "payload_type (P_Binop _ _ _) = TYPE_BINOP"
| "payload_type (P_Not _) = TYPE_NOT"
| "payload_type (P_Map _) = TYPE_MAP"
| "payload_type (P_Rec _) = TYPE_REC"
| "payload_type (P_Int _) = TYPE_INT"
| "payload_type (P_Str _) = TYPE_STR"

definition ntype :: "node \<Rightarrow> type_t" where
  "ntype n = payload_type (u n)"

subsection \<open>Compilation state and environment\<close>

text \<open>
  \<open>insns\<close> is the program buffer up to the write cursor \<^verbatim>\<open>prog->ip\<close> (the buffer's fixed
  capacity is not modelled: writing past it is outside the C semantics). \<open>stderr\<close> is
  the diagnostic stream: a \<open>Dump\<close> event stands for the line \<^verbatim>\<open>dump_insn\<close> renders from
  its static instruction counter and the instruction, an \<open>Err\<close> event for a message of
  the \<^verbatim>\<open>_e\<close> macro, identified by its format string. \<open>dump_ip\<close> is the static counter of
  \<^verbatim>\<open>dump_insn\<close>. The debug macro \<^verbatim>\<open>_d\<close> is left out.
\<close>

datatype event = Dump nat bpf_insn | Err string

record state =
  insns :: "bpf_insn list"
  dump_ip :: nat
  stderr :: "event list"

text \<open>
  What \<^verbatim>\<open>compile.c\<close> takes from outside: the global \<^verbatim>\<open>dump\<close> flag; \<^verbatim>\<open>emit_ld_mapfd\<close>
  (\<^verbatim>\<open>compile.h\<close>), given by the instructions it passes to \<^verbatim>\<open>emit\<close> for a register and a
  map handle; \<^verbatim>\<open>node_map_get_fd\<close>; the provider's \<^verbatim>\<open>compile\<close> callback of a call node,
  given by its return code and the instructions it passes to \<^verbatim>\<open>emit\<close>.
\<close>

record env =
  dump :: bool
  ld_mapfd :: "4 word \<Rightarrow> 32 word \<Rightarrow> bpf_insn list"
  node_map_get_fd :: "node \<Rightarrow> 32 word"
  pvdr_compile :: "node \<Rightarrow> int \<times> bpf_insn list"

abbreviation EINVAL :: int where "EINVAL \<equiv> 22"
abbreviation ENOSYS :: int where "ENOSYS \<equiv> 38"

section \<open>The code generator\<close>

subsection \<open>emit\<close>

definition dump_insn :: "bpf_insn \<Rightarrow> state \<Rightarrow> state" where
  "dump_insn insn st =
     st\<lparr>dump_ip := Suc (dump_ip st), stderr := stderr st @ [Dump (dump_ip st) insn]\<rparr>"

definition emit :: "env \<Rightarrow> bpf_insn \<Rightarrow> state \<Rightarrow> state" where
  "emit e insn st =
     (let st1 = (if dump e then dump_insn insn st else st)
      in st1\<lparr>insns := insns st1 @ [insn]\<rparr>)"

fun emits :: "env \<Rightarrow> bpf_insn list \<Rightarrow> state \<Rightarrow> state" where
  "emits e [] st = st"
| "emits e (i # is) st = emits e is (emit e i st)"

definition log_e :: "string \<Rightarrow> state \<Rightarrow> state" where
  "log_e msg st = st\<lparr>stderr := stderr st @ [Err msg]\<rparr>"

subsection \<open>emit_stack_zero\<close>

text \<open>
  The loop \<^verbatim>\<open>for (i = 0; i < n->dyn.size; i += sizeof(int64_t))\<close> counts in a
  \<^verbatim>\<open>size_t\<close>: for a size above \<open>2^64 - 8\<close> the counter wraps before it reaches the size
  and the loop does not end, which is the value \<open>None\<close>.
\<close>

partial_function (option) stack_zero_loop :: "env \<Rightarrow> node \<Rightarrow> 64 word \<Rightarrow> state \<Rightarrow> state option" where
  "stack_zero_loop e n i st =
     (if i < dyn_size (dyn n)
      then stack_zero_loop e n (i + 8)
             (emit e (STXDW BPF_REG_10 (ucast (dyn_addr (dyn n) + i)) BPF_REG_0) st)
      else Some st)"

definition emit_stack_zero :: "env \<Rightarrow> node \<Rightarrow> state \<Rightarrow> (int \<times> state) option" where
  "emit_stack_zero e n st =
     map_option (Pair 0) (stack_zero_loop e n 0 (emit e (MOV_IMM BPF_REG_0 0) st))"

subsection \<open>emit_xfer\<close>

text \<open>
  \<^verbatim>\<open>emit_xfer_literal\<close> reads its source through two pointers into the same memory:
  \<^verbatim>\<open>int64_t *integer\<close> and \<^verbatim>\<open>int32_t *from\<close>. The memory is modelled as the list of its
  32-bit words, in little-endian order; a read past its end is \<open>None\<close>.
\<close>

definition int_words :: "64 word \<Rightarrow> 32 word list" where
  "int_words i = [ucast i, ucast (drop_bit 32 i)]"

fun str_words :: "8 word list \<Rightarrow> 32 word list" where
  "str_words (b0 # b1 # b2 # b3 # bs) =
     (ucast b0 OR push_bit 8 (ucast b1) OR push_bit 16 (ucast b2) OR push_bit 24 (ucast b3))
       # str_words bs"
| "str_words _ = []"

fun rd_int64 :: "32 word list \<Rightarrow> 64 word option" where
  "rd_int64 (lo # hi # _) = Some (push_bit 32 (ucast hi) OR ucast lo)"
| "rd_int64 _ = None"

text \<open>
  \<^verbatim>\<open>for (at = to->dyn.addr; size; at += 4, size -= 4, from++)\<close>: the loop ends when
  \<^verbatim>\<open>size\<close> is zero, and each round reads the next word of the source.
\<close>

fun xfer_literal_loop :: "env \<Rightarrow> 64 word \<Rightarrow> 64 word \<Rightarrow> 32 word list \<Rightarrow> state \<Rightarrow> state option" where
  "xfer_literal_loop e at sz [] st = (if sz = 0 then Some st else None)"
| "xfer_literal_loop e at sz (w # ws) st =
     (if sz = 0 then Some st
      else xfer_literal_loop e (at + 4) (sz - 4) ws (emit e (STW_IMM BPF_REG_10 (ucast at) w) st))"

definition emit_xfer_literal ::
  "env \<Rightarrow> node \<Rightarrow> 32 word list \<Rightarrow> 64 word \<Rightarrow> state \<Rightarrow> (int \<times> state) option" where
  "emit_xfer_literal e to from sz st =
     (case dyn_loc (dyn to) of
        LOC_NOWHERE \<Rightarrow> Some (- EINVAL, log_e ''destination of %s is unknown'' st)
      | LOC_REG \<Rightarrow>
          (case rd_int64 from of
             None \<Rightarrow> None
           | Some integer \<Rightarrow>
               if 0xffffffff <s integer
               then Some (0,
                 emit e (ALU_IMM ALU_OP_OR (ucast (dyn_reg (dyn to)))
                           (ucast (signed_drop_bit 32 integer)))
                   (emit e (ALU_IMM ALU_OP_LSH (ucast (dyn_reg (dyn to))) 32)
                     (emit e (MOV_IMM (ucast (dyn_reg (dyn to)))
                               (ucast (signed_drop_bit 32 integer))) st)))
               else Some (0, emit e (MOV_IMM (ucast (dyn_reg (dyn to))) (ucast integer)) st))
      | LOC_STACK \<Rightarrow>
          map_option (Pair 0) (xfer_literal_loop e (dyn_addr (dyn to)) sz from st))"

definition emit_xfer_reg :: "env \<Rightarrow> node \<Rightarrow> 32 word \<Rightarrow> state \<Rightarrow> (int \<times> state) option" where
  "emit_xfer_reg e to from st =
     (case dyn_loc (dyn to) of
        LOC_NOWHERE \<Rightarrow> Some (- EINVAL, log_e ''destination of %s is unknown'' st)
      | LOC_REG \<Rightarrow>
          if dyn_reg (dyn to) = from then Some (0, st)
          else Some (0, emit e (MOV (ucast (dyn_reg (dyn to))) (ucast from)) st)
      | LOC_STACK \<Rightarrow>
          Some (0, emit e (STXDW BPF_REG_10 (ucast (dyn_addr (dyn to))) (ucast from)) st))"

definition emit_xfer_stack :: "env \<Rightarrow> node \<Rightarrow> 64 word \<Rightarrow> state \<Rightarrow> (int \<times> state) option" where
  "emit_xfer_stack e to from st =
     (case dyn_loc (dyn to) of
        LOC_NOWHERE \<Rightarrow> Some (- EINVAL, log_e ''destination of %s is unknown'' st)
      | LOC_REG \<Rightarrow>
          Some (0, emit e (LDXDW (ucast (dyn_reg (dyn to))) (ucast from) BPF_REG_10) st)
      | LOC_STACK \<Rightarrow>
          Some (- ENOSYS, log_e ''stack<->stack transfer, to %s, not implemented'' st))"

definition emit_xfer :: "env \<Rightarrow> node \<Rightarrow> node \<Rightarrow> state \<Rightarrow> (int \<times> state) option" where
  "emit_xfer e to from st =
     (case u from of
        P_Int integer \<Rightarrow> emit_xfer_literal e to (int_words integer) 8 st
      | P_Str string \<Rightarrow> emit_xfer_literal e to (str_words string) (dyn_size (dyn from)) st
      | _ \<Rightarrow>
          (case dyn_loc (dyn from) of
             LOC_NOWHERE \<Rightarrow> Some (- EINVAL, log_e ''source of %s is unknown'' st)
           | LOC_REG \<Rightarrow> emit_xfer_reg e to (dyn_reg (dyn from)) st
           | LOC_STACK \<Rightarrow> emit_xfer_stack e to (dyn_addr (dyn from)) st))"

text \<open>The C idiom \<^verbatim>\<open>err = f(...); if (err) return err;\<close> followed by the rest.\<close>

definition bind_err ::
  "(int \<times> state) option \<Rightarrow> (state \<Rightarrow> (int \<times> state) option) \<Rightarrow> (int \<times> state) option" where
  "bind_err r f =
     (case r of None \<Rightarrow> None | Some (err, st) \<Rightarrow> if err \<noteq> 0 then Some (err, st) else f st)"

subsection \<open>emit_map_load and emit_assign\<close>

definition emit_ld_mapfd :: "env \<Rightarrow> 4 word \<Rightarrow> 32 word \<Rightarrow> state \<Rightarrow> state" where
  "emit_ld_mapfd e r fd st = emits e (ld_mapfd e r fd) st"

text \<open>
  \<^verbatim>\<open>n->map.rec\<close> is the key record of a map node; on a node of another kind the C code
  would read a foreign union member, which is \<open>None\<close> here. The return value of
  \<^verbatim>\<open>emit_stack_zero\<close> is dropped, as in the source.
\<close>

definition emit_map_load :: "env \<Rightarrow> node \<Rightarrow> state \<Rightarrow> (int \<times> state) option" where
  "emit_map_load e n st =
     (if parent_type (parent n) = TYPE_ASSIGN \<and> parent_assign_op (parent n) = ALU_OP_MOV
      then Some (0, st)
      else
        (case emit_stack_zero e n st of
           None \<Rightarrow> None
         | Some (_, st1) \<Rightarrow>
             (case u n of
                P_Map rec \<Rightarrow>
                  Some (0,
                    emits e
                      [MOV BPF_REG_2 BPF_REG_10,
                       ALU_IMM ALU_OP_ADD BPF_REG_2 (ucast (dyn_addr (dyn rec))),
                       CALL BPF_FUNC_map_lookup_elem,
                       JMP_IMM JMP_JEQ BPF_REG_0 0 5,
                       MOV BPF_REG_1 BPF_REG_10,
                       ALU_IMM ALU_OP_ADD BPF_REG_1 (ucast (dyn_addr (dyn n))),
                       MOV_IMM BPF_REG_2 (ucast (dyn_size (dyn n))),
                       MOV BPF_REG_3 BPF_REG_0,
                       CALL BPF_FUNC_probe_read]
                      (emit_ld_mapfd e BPF_REG_1 (node_map_get_fd e n) st1))
              | _ \<Rightarrow> None)))"

definition emit_assign :: "env \<Rightarrow> node \<Rightarrow> state \<Rightarrow> (int \<times> state) option" where
  "emit_assign e assign st =
     (case u assign of
        P_Assign opr lval expr \<Rightarrow>
          bind_err
            (if opr = ALU_OP_MOV
             then (case u expr of
                     P_Int _ \<Rightarrow> emit_xfer e lval expr st
                   | _ \<Rightarrow> Some (0, st))
             else
               bind_err (emit_xfer e assign lval st)
                 (\<lambda>st1. emit_xfer e lval assign
                    (case u expr of
                       P_Int integer \<Rightarrow>
                         emit e (ALU_IMM opr (ucast (dyn_reg (dyn assign))) (ucast integer)) st1
                     | _ \<Rightarrow>
                         emit e (ALU opr (ucast (dyn_reg (dyn assign)))
                                   (ucast (dyn_reg (dyn expr)))) st1)))
            (\<lambda>st2.
               (case u lval of
                  P_Map rec \<Rightarrow>
                    Some (0,
                      emits e
                        [MOV BPF_REG_2 BPF_REG_10,
                         ALU_IMM ALU_OP_ADD BPF_REG_2 (ucast (dyn_addr (dyn rec))),
                         MOV BPF_REG_3 BPF_REG_10,
                         ALU_IMM ALU_OP_ADD BPF_REG_3 (ucast (dyn_addr (dyn lval))),
                         MOV_IMM BPF_REG_4 0,
                         CALL BPF_FUNC_map_update_elem]
                        (emit_ld_mapfd e BPF_REG_1 (node_map_get_fd e lval) st2))
                | _ \<Rightarrow> None))
      | _ \<Rightarrow> None)"

subsection \<open>The walker\<close>

definition compile_pre :: "env \<Rightarrow> node \<Rightarrow> state \<Rightarrow> (int \<times> state) option" where
  "compile_pre e n st = Some (0, st)"

text \<open>
  For a string literal the return value of \<^verbatim>\<open>emit_xfer\<close> is not assigned to \<^verbatim>\<open>err\<close>;
  for not, binary-op and return nodes the case is an empty \<^verbatim>\<open>TODO\<close>.
\<close>

definition compile_post :: "env \<Rightarrow> node \<Rightarrow> state \<Rightarrow> (int \<times> state) option" where
  "compile_post e n st =
     (case u n of
        P_Int _ \<Rightarrow> Some (0, st)
      | P_Str _ \<Rightarrow>
          (case emit_xfer e n n st of None \<Rightarrow> None | Some (_, st1) \<Rightarrow> Some (0, st1))
      | P_Rec _ \<Rightarrow> Some (0, st)
      | P_Map _ \<Rightarrow> emit_map_load e n st
      | P_Not _ \<Rightarrow> Some (0, st)
      | P_Binop _ _ _ \<Rightarrow> Some (0, st)
      | P_Return _ \<Rightarrow> Some (0, st)
      | P_Assign _ _ _ \<Rightarrow> emit_assign e n st
      | P_Call _ \<Rightarrow> (case pvdr_compile e n of (err, is) \<Rightarrow> Some (err, emits e is st))
      | P_Probe _ _ \<Rightarrow> Some (- ENOSYS, log_e ''unable to compile %s <%s>'' st)
      | P_Script _ \<Rightarrow> Some (- ENOSYS, log_e ''unable to compile %s <%s>'' st)
      | P_None \<Rightarrow> Some (- ENOSYS, log_e ''unable to compile %s <%s>'' st))"

text \<open>
  Modelled from the spec: \<^verbatim>\<open>node_walk\<close> (\<^verbatim>\<open>lang/ast.c\<close>) is not part of \<^verbatim>\<open>src/\<close>.
  Section 4.7: a single post-order traversal, each node visited after its children,
  and an error from any visited node aborts the traversal at once. The pre-order
  callback runs when a node is entered; the children are taken in the order the node
  holds them.
\<close>

fun node_walk ::
    "(node \<Rightarrow> state \<Rightarrow> (int \<times> state) option) \<Rightarrow> (node \<Rightarrow> state \<Rightarrow> (int \<times> state) option)
      \<Rightarrow> node \<Rightarrow> state \<Rightarrow> (int \<times> state) option"
  and walk_payload ::
    "(node \<Rightarrow> state \<Rightarrow> (int \<times> state) option) \<Rightarrow> (node \<Rightarrow> state \<Rightarrow> (int \<times> state) option)
      \<Rightarrow> payload \<Rightarrow> state \<Rightarrow> (int \<times> state) option"
  and walk_list ::
    "(node \<Rightarrow> state \<Rightarrow> (int \<times> state) option) \<Rightarrow> (node \<Rightarrow> state \<Rightarrow> (int \<times> state) option)
      \<Rightarrow> node list \<Rightarrow> state \<Rightarrow> (int \<times> state) option"
where
  "node_walk pre post (Node d p pl) st =
     bind_err (pre (Node d p pl) st)
       (\<lambda>st1. bind_err (walk_payload pre post pl st1) (post (Node d p pl)))"
| "walk_payload pre post P_None st = Some (0, st)"
| "walk_payload pre post (P_Script probes) st = walk_list pre post probes st"
| "walk_payload pre post (P_Probe None stmts) st = walk_list pre post stmts st"
| "walk_payload pre post (P_Probe (Some pred) stmts) st =
     bind_err (node_walk pre post pred st) (walk_list pre post stmts)"
| "walk_payload pre post (P_Call vargs) st = walk_list pre post vargs st"
| "walk_payload pre post (P_Assign opr lval expr) st =
     bind_err (node_walk pre post lval st) (node_walk pre post expr)"
| "walk_payload pre post (P_Return r) st = node_walk pre post r st"
| "walk_payload pre post (P_Binop opr l r) st =
     bind_err (node_walk pre post l st) (node_walk pre post r)"
| "walk_payload pre post (P_Not x) st = node_walk pre post x st"
| "walk_payload pre post (P_Map rec) st = node_walk pre post rec st"
| "walk_payload pre post (P_Rec vargs) st = walk_list pre post vargs st"
| "walk_payload pre post (P_Int _) st = Some (0, st)"
| "walk_payload pre post (P_Str _) st = Some (0, st)"
| "walk_list pre post [] st = Some (0, st)"
| "walk_list pre post (n # ns) st =
     bind_err (node_walk pre post n st) (walk_list pre post ns)"

definition compile_walk :: "env \<Rightarrow> node \<Rightarrow> state \<Rightarrow> (int \<times> state) option" where
  "compile_walk e n st = node_walk (compile_pre e) (compile_post e) n st"

subsection \<open>compile_pred\<close>

definition compile_pred :: "env \<Rightarrow> node option \<Rightarrow> state \<Rightarrow> (int \<times> state) option" where
  "compile_pred e pred_opt st =
     (case pred_opt of
        None \<Rightarrow> Some (0, st)
      | Some pred \<Rightarrow>
          bind_err (compile_walk e pred st)
            (\<lambda>st1.
               (case dyn_loc (dyn pred) of
                  LOC_REG \<Rightarrow>
                    Some (0,
                      emits e
                        [JMP_IMM JMP_JNE (ucast (dyn_reg (dyn pred))) 0 2,
                         MOV_IMM BPF_REG_0 0, EXIT] st1)
                | LOC_STACK \<Rightarrow>
                    Some (0,
                      emits e
                        [LDXDW BPF_REG_0 (ucast (dyn_addr (dyn pred))) BPF_REG_10,
                         JMP_IMM JMP_JNE BPF_REG_0 0 2,
                         MOV_IMM BPF_REG_0 0, EXIT] st1)
                | LOC_NOWHERE \<Rightarrow>
                    (case u pred of
                       P_Int integer \<Rightarrow>
                         Some (0,
                           emits e [MOV_IMM BPF_REG_0 0, EXIT]
                             (if integer \<noteq> 0 then emit e (JMP_IMM JMP_JA 0 0 2) st1 else st1))
                     | _ \<Rightarrow> Some (- EINVAL, log_e ''unknown predicate location'' st1)))))"

subsection \<open>compile_probe\<close>

text \<open>
  The statement loop \<^verbatim>\<open>node_foreach(stmt, probe->probe.stmts)\<close> leaves \<^verbatim>\<open>stmt\<close> at the
  last statement (it breaks before stepping past it); on an empty list \<^verbatim>\<open>stmt\<close> is null
  and \<^verbatim>\<open>stmt->type\<close> is outside the C semantics (\<open>None\<close>).
\<close>

fun compile_stmts :: "env \<Rightarrow> node list \<Rightarrow> state \<Rightarrow> (int \<times> state) option" where
  "compile_stmts e [] st = Some (0, st)"
| "compile_stmts e (stmt # rest) st =
     bind_err (compile_walk e stmt st)
       (\<lambda>st1. if rest = [] then Some (0, st1) else compile_stmts e rest st1)"

text \<open>
  The result is the returned program (\<open>None\<close> for the null pointer) and the state after
  the call. \<open>alloc_ok\<close> says whether \<^verbatim>\<open>calloc\<close> succeeds; the fresh program is empty.
\<close>

definition compile_probe ::
  "env \<Rightarrow> bool \<Rightarrow> node \<Rightarrow> state \<Rightarrow> (bpf_insn list option \<times> state) option" where
  "compile_probe e alloc_ok probe st =
     (if \<not> alloc_ok then Some (None, st)
      else
        (case u probe of
           P_Probe pred stmts \<Rightarrow>
             (case compile_pred e pred (emit e (MOV BPF_REG_9 BPF_REG_1) (st\<lparr>insns := []\<rparr>)) of
                None \<Rightarrow> None
              | Some (err, st1) \<Rightarrow>
                  if err \<noteq> 0 then Some (None, st1)
                  else
                    (case compile_stmts e stmts st1 of
                       None \<Rightarrow> None
                     | Some (err2, st2) \<Rightarrow>
                         if err2 \<noteq> 0 then Some (None, st2)
                         else if stmts = [] then None
                         else if ntype (last stmts) = TYPE_RETURN
                         then Some (Some (insns st2), st2)
                         else
                           (let st3 = emits e [MOV_IMM BPF_REG_0 0, EXIT] st2
                            in Some (Some (insns st3), st3))))
         | _ \<Rightarrow> None))"

section \<open>Vocabulary of the statements\<close>

text \<open>
  The stores of the zero-fill for the rounds \<open>k, \<dots>, m - 1\<close> of its loop: round \<open>j\<close> stores
  register 0 at the frame offset \<^verbatim>\<open>n->dyn.addr + 8 * j\<close>, cut to the 16-bit offset field.
\<close>

definition zero_stores :: "node \<Rightarrow> nat \<Rightarrow> nat \<Rightarrow> bpf_insn list" where
  "zero_stores n k m =
     map (\<lambda>j. STXDW BPF_REG_10 (ucast (dyn_addr (dyn n) + 8 * of_nat j)) BPF_REG_0) [k..<m]"

text \<open>
  The first \<open>k\<close> stores of a literal transfer to the stack: store \<open>j\<close> writes the word
  \<open>ws ! j\<close> at the frame offset \<^verbatim>\<open>at + 4 * j\<close>, cut to the 16-bit offset field.
\<close>

definition literal_stores :: "64 word \<Rightarrow> 32 word list \<Rightarrow> nat \<Rightarrow> bpf_insn list" where
  "literal_stores at ws k =
     map (\<lambda>j. STW_IMM BPF_REG_10 (ucast (at + 4 * of_nat j)) (ws ! j)) [0..<k]"

text \<open>
  The memory and the size that \<^verbatim>\<open>emit_xfer\<close> hands to \<^verbatim>\<open>emit_xfer_literal\<close> for a
  literal source: an integer with \<^verbatim>\<open>sizeof(from->integer)\<close>, a blob with its declared
  size.
\<close>

definition lit_words :: "node \<Rightarrow> 32 word list" where
  "lit_words from = (case u from of P_Int i \<Rightarrow> int_words i | P_Str s \<Rightarrow> str_words s | _ \<Rightarrow> [])"

definition lit_size :: "node \<Rightarrow> 64 word" where
  "lit_size from = (case u from of P_Int _ \<Rightarrow> 8 | P_Str _ \<Rightarrow> dyn_size (dyn from) | _ \<Rightarrow> 0)"

text \<open>
  The parts of the map load: the parent is a plain-overwrite assignment; the lookup
  (map handle into register 1, key address into register 2, call, null test); the copy
  that the null test skips.
\<close>

definition plain_overwrite :: "node \<Rightarrow> bool" where
  "plain_overwrite n \<longleftrightarrow>
     parent_type (parent n) = TYPE_ASSIGN \<and> parent_assign_op (parent n) = ALU_OP_MOV"

definition map_lookup_seq :: "env \<Rightarrow> node \<Rightarrow> node \<Rightarrow> bpf_insn list" where
  "map_lookup_seq e n rec =
     ld_mapfd e BPF_REG_1 (node_map_get_fd e n) @
     [MOV BPF_REG_2 BPF_REG_10,
      ALU_IMM ALU_OP_ADD BPF_REG_2 (ucast (dyn_addr (dyn rec))),
      CALL BPF_FUNC_map_lookup_elem,
      JMP_IMM JMP_JEQ BPF_REG_0 0 5]"

definition map_copy_seq :: "node \<Rightarrow> bpf_insn list" where
  "map_copy_seq n =
     [MOV BPF_REG_1 BPF_REG_10,
      ALU_IMM ALU_OP_ADD BPF_REG_1 (ucast (dyn_addr (dyn n))),
      MOV_IMM BPF_REG_2 (ucast (dyn_size (dyn n))),
      MOV BPF_REG_3 BPF_REG_0,
      CALL BPF_FUNC_probe_read]"

text \<open>
  What a caller sees of a result in the program: the return code and the buffer's
  contents. \<open>frame_offsets\<close> reads the offset fields of instructions as the signed
  16-bit numbers they are.
\<close>

definition outcome :: "(int \<times> state) option \<Rightarrow> (int \<times> bpf_insn list) option" where
  "outcome r = (case r of None \<Rightarrow> None | Some (err, st) \<Rightarrow> Some (err, insns st))"

definition frame_offsets :: "bpf_insn list \<Rightarrow> int list" where
  "frame_offsets is = map (\<lambda>i. sint (off i)) is"

text \<open>
  The two \<^verbatim>\<open>-EINVAL\<close> failures of a transfer differ in the message they report:
  \<open>UnknownDestination\<close> and \<open>UnknownSource\<close> of the specification. Both leave the
  program buffer as it was.
\<close>

definition unknown_destination :: "state \<Rightarrow> (int \<times> state) option \<Rightarrow> bool" where
  "unknown_destination st r \<longleftrightarrow> r = Some (- EINVAL, log_e ''destination of %s is unknown'' st)"

definition unknown_source :: "state \<Rightarrow> (int \<times> state) option \<Rightarrow> bool" where
  "unknown_source st r \<longleftrightarrow> r = Some (- EINVAL, log_e ''source of %s is unknown'' st)"

text \<open>
  Two environments that differ at most in the \<^verbatim>\<open>dump\<close> flag, and two results that agree
  on the return code and on the instructions in the program buffer.
\<close>

definition same_ext :: "env \<Rightarrow> env \<Rightarrow> bool" where
  "same_ext e e' \<longleftrightarrow>
     ld_mapfd e = ld_mapfd e' \<and> node_map_get_fd e = node_map_get_fd e' \<and>
     pvdr_compile e = pvdr_compile e'"

definition same_res :: "(int \<times> state) option \<Rightarrow> (int \<times> state) option \<Rightarrow> bool" where
  "same_res r r' =
     (case r of
        None \<Rightarrow> r' = None
      | Some (a, s) \<Rightarrow> (case r' of None \<Rightarrow> False | Some (b, t) \<Rightarrow> a = b \<and> insns s = insns t))"

subsection \<open>Example inputs\<close>

text \<open>
  An environment with the diagnostic flag set, a two-instruction map-handle load and a
  provider that emits one helper call for every call node; the empty initial state; nodes
  resolved to a register, to a stack area and to no location; a map reference of 8 bytes
  at frame offset -8 with its key record at -24, and one of any size with its key record
  at any offset; a probe without predicate.
\<close>

definition env0 :: env where
  "env0 = \<lparr>dump = True,
           ld_mapfd = (\<lambda>r fd. [INSN (BPF_LD BPF_DW) r 1 0 fd, INSN (BPF_LD BPF_W) 0 0 0 0]),
           node_map_get_fd = (\<lambda>n. 3),
           pvdr_compile = (\<lambda>n. (0, [CALL BPF_FUNC_ktime_get_ns]))\<rparr>"

definition st0 :: state where
  "st0 = \<lparr>insns = [], dump_ip = 0, stderr = []\<rparr>"

definition no_parent :: parent_t where
  "no_parent = \<lparr>parent_type = TYPE_PROBE, parent_assign_op = ALU_OP_ADD\<rparr>"

definition reg_node :: "32 word \<Rightarrow> payload \<Rightarrow> node" where
  "reg_node r pl = Node \<lparr>dyn_size = 8, dyn_loc = LOC_REG, dyn_reg = r, dyn_addr = 0\<rparr> no_parent pl"

definition stack_node :: "64 word \<Rightarrow> 64 word \<Rightarrow> payload \<Rightarrow> node" where
  "stack_node a sz pl =
     Node \<lparr>dyn_size = sz, dyn_loc = LOC_STACK, dyn_reg = 0, dyn_addr = a\<rparr> no_parent pl"

definition nowhere_node :: "payload \<Rightarrow> node" where
  "nowhere_node pl =
     Node \<lparr>dyn_size = 8, dyn_loc = LOC_NOWHERE, dyn_reg = 0, dyn_addr = 0\<rparr> no_parent pl"

definition map_node :: "parent_t \<Rightarrow> node" where
  "map_node p =
     Node \<lparr>dyn_size = 8, dyn_loc = LOC_STACK, dyn_reg = 0, dyn_addr = - 8\<rparr> p
       (P_Map (stack_node (- 24) 16 (P_Rec [])))"

definition wide_map_node :: "64 word \<Rightarrow> 64 word \<Rightarrow> node" where
  "wide_map_node sz key =
     Node \<lparr>dyn_size = sz, dyn_loc = LOC_STACK, dyn_reg = 0, dyn_addr = - 8\<rparr> no_parent
       (P_Map (stack_node key 16 (P_Rec [])))"

definition probe_of :: "node list \<Rightarrow> node" where
  "probe_of stmts = nowhere_node (P_Probe None stmts)"

section \<open>Basic facts\<close>

subsection \<open>emit appends\<close>

lemma insns_emit: "insns (emit e i st) = insns st @ [i]"
  by (simp add: emit_def dump_insn_def Let_def)

lemma insns_emits: "insns (emits e is st) = insns st @ is"
  by (induction "is" arbitrary: st) (simp_all add: insns_emit)

lemma emits_append: "emits e (xs @ ys) st = emits e ys (emits e xs st)"
  by (induction xs arbitrary: st) simp_all

lemma emits_snoc: "emits e (xs @ [x]) st = emit e x (emits e xs st)"
  by (simp add: emits_append)

subsection \<open>The loops\<close>

text \<open>
  The zero-fill loop returns whenever the size rounded up to a multiple of 8 is below
  \<open>2^64\<close>, after \<open>m - k\<close> more stores when started in round \<open>k\<close>.
\<close>

lemma stack_zero_loop_run:
  assumes m: "8 * m < 2 ^ 64" "unat (dyn_size (dyn n)) \<le> 8 * m" "8 * m < unat (dyn_size (dyn n)) + 8"
  shows "k \<le> m \<Longrightarrow> stack_zero_loop e n (8 * of_nat k) st = Some (emits e (zero_stores n k m) st)"
proof (induction "m - k" arbitrary: k st)
  case 0
  then have km: "k = m" by simp
  have "unat (8 * of_nat m :: 64 word) = 8 * m"
    using m(1) by (simp add: unat_word_ariths unat_of_nat)
  then have "\<not> (8 * of_nat m :: 64 word) < dyn_size (dyn n)"
    using m(2) by (simp add: word_less_nat_alt)
  then show ?case
    unfolding km by (subst stack_zero_loop.simps) (simp add: zero_stores_def)
next
  case (Suc d)
  then have lt: "k < m" by simp
  have u: "unat (8 * of_nat k :: 64 word) = 8 * k"
    using m(1) lt by (simp add: unat_word_ariths unat_of_nat)
  have c: "(8 * of_nat k :: 64 word) < dyn_size (dyn n)"
    using m(3) lt u by (simp add: word_less_nat_alt)
  have nx: "(8 * of_nat k + 8 :: 64 word) = 8 * of_nat (Suc k)" by simp
  have ih: "stack_zero_loop e n (8 * of_nat (Suc k)) st' = Some (emits e (zero_stores n (Suc k) m) st')" for st'
    using Suc.hyps(1)[of "Suc k" st'] Suc.hyps(2) lt by simp
  have z: "zero_stores n k m = STXDW BPF_REG_10 (ucast (dyn_addr (dyn n) + 8 * of_nat k)) BPF_REG_0 # zero_stores n (Suc k) m"
    using lt by (simp add: zero_stores_def upt_conv_Cons)
  show ?case
    by (subst stack_zero_loop.simps) (simp only: c if_True nx ih z emits.simps)
qed

lemma literal_stores_Suc:
  "literal_stores at (w # ws) (Suc k) = STW_IMM BPF_REG_10 (ucast at) w # literal_stores (at + 4) ws k"
proof -
  have "[0..<Suc k] = 0 # map Suc [0..<k]"
    by (simp add: upt_conv_Cons map_Suc_upt del: upt_Suc)
  then show ?thesis
    by (simp add: literal_stores_def comp_def algebra_simps del: upt_Suc)
qed

lemma xfer_literal_loop_run:
  "unat sz = 4 * k \<Longrightarrow> k \<le> length ws \<Longrightarrow>
   xfer_literal_loop e at sz ws st = Some (emits e (literal_stores at ws k) st)"
proof (induction ws arbitrary: at sz k st)
  case Nil
  then show ?case by (simp add: literal_stores_def unat_eq_0)
next
  case (Cons w ws)
  show ?case
  proof (cases k)
    case 0
    with Cons.prems have "sz = 0" by (simp add: unat_eq_0)
    then show ?thesis using 0 by (simp add: literal_stores_def)
  next
    case (Suc k')
    with Cons.prems have nz: "sz \<noteq> 0" by auto
    have "4 \<le> unat sz" using Cons.prems Suc by simp
    then have "unat (sz - 4) = 4 * k'"
      using Cons.prems Suc by (simp add: unat_sub word_le_nat_alt)
    moreover have "k' \<le> length ws" using Cons.prems Suc by simp
    ultimately have "xfer_literal_loop e (at + 4) (sz - 4) ws st' = Some (emits e (literal_stores (at + 4) ws k') st')" for st'
      by (rule Cons.IH)
    then show ?thesis using nz Suc by (simp add: literal_stores_Suc)
  qed
qed

subsection \<open>Literal memory and offsets\<close>

lemma rd_int64_int_words: "rd_int64 (int_words i) = Some i"
  unfolding int_words_def
  apply simp
  apply (rule bit_word_eqI)
  apply (auto simp add: bit_simps)
  done

lemma length_str_words: "length (str_words bs) = length bs div 4"
  by (induction bs rule: str_words.induct) simp_all

lemma ucast_word_of_int_16: "(ucast (word_of_int z :: 64 word) :: 16 word) = word_of_int z"
  by (rule bit_word_eqI) (auto simp add: bit_simps)

lemma sint_off16:
  fixes a :: "64 word"
  assumes "- 32768 \<le> sint a + int j" "sint a + int j < 32768"
  shows "sint (ucast (a + of_nat j) :: 16 word) = sint a + int j"
proof -
  have "a + of_nat j = word_of_int (sint a + int j)"
    by simp
  then have "(ucast (a + of_nat j) :: 16 word) = word_of_int (sint a + int j)"
    by (simp only: ucast_word_of_int_16)
  then have "sint (ucast (a + of_nat j) :: 16 word) = signed_take_bit 15 (sint a + int j)"
    by (simp only: sint_sbintrunc') simp
  also have "\<dots> = sint a + int j"
    using assms by (intro signed_take_bit_int_eq_self) simp_all
  finally show ?thesis .
qed

text \<open>Whenever the zero-fill loop returns, it has only appended to the buffer.\<close>

lemma stack_zero_loop_grows:
  assumes "stack_zero_loop e n i st = Some st'"
  shows "\<exists>xs. insns st' = insns st @ xs"
proof (rule stack_zero_loop.raw_induct
    [where P = "\<lambda>e n i st st'. \<exists>xs. insns st' = insns st @ xs", OF _ assms])
  fix loop :: "env \<Rightarrow> node \<Rightarrow> 64 word \<Rightarrow> state \<Rightarrow> state option"
  fix e n i st r
  assume ih: "\<And>e n i st r. loop e n i st = Some r \<Longrightarrow> \<exists>xs. insns r = insns st @ xs"
  assume step: "(if i < dyn_size (dyn n)
      then loop e n (i + 8) (emit e (STXDW BPF_REG_10 (ucast (dyn_addr (dyn n) + i)) BPF_REG_0) st)
      else Some st) = Some r"
  show "\<exists>xs. insns r = insns st @ xs"
  proof (cases "i < dyn_size (dyn n)")
    case True
    with step have "loop e n (i + 8) (emit e (STXDW BPF_REG_10 (ucast (dyn_addr (dyn n) + i)) BPF_REG_0) st) = Some r"
      by simp
    from ih[OF this] show ?thesis by (auto simp: insns_emit)
  next
    case False
    with step show ?thesis by simp
  qed
qed

subsection \<open>Independence of the dump flag, function by function\<close>

lemma same_res_Some [simp]:
  "same_res (Some (a, s)) (Some (b, t)) \<longleftrightarrow> a = b \<and> insns s = insns t"
  by (simp add: same_res_def)

lemma same_res_None [simp]: "same_res None None"
  by (simp add: same_res_def)

lemma same_res_bind:
  assumes "same_res r r'"
    and "\<And>s t. insns s = insns t \<Longrightarrow> same_res (f s) (g t)"
  shows "same_res (bind_err r f) (bind_err r' g)"
proof (cases r)
  case None
  with assms(1) show ?thesis by (simp add: same_res_def bind_err_def)
next
  case (Some p)
  obtain a s where p: "p = (a, s)" by (cases p)
  from assms(1) Some p obtain t where r': "r' = Some (a, t)" and eq: "insns s = insns t"
    by (auto simp: same_res_def split: option.splits)
  show ?thesis
  proof (cases "a = 0")
    case True
    with Some p r' assms(2)[OF eq] show ?thesis by (simp add: bind_err_def)
  next
    case False
    with Some p r' eq show ?thesis by (simp add: bind_err_def)
  qed
qed

lemma insns_emit_cong: "insns s = insns t \<Longrightarrow> insns (emit e i s) = insns (emit e' i t)"
  by (simp add: insns_emit)

lemma insns_emits_cong: "insns s = insns t \<Longrightarrow> insns (emits e is s) = insns (emits e' is t)"
  by (simp add: insns_emits)

lemma insns_log_e [simp]: "insns (log_e m st) = insns st"
  by (simp add: log_e_def)

lemma stack_zero_loop_sim:
  assumes "stack_zero_loop e n i st = Some r"
  shows "\<forall>st'::state. insns st' = insns st \<longrightarrow>
           (\<exists>r'. stack_zero_loop e' n i st' = Some r' \<and> insns r' = insns r)"
proof (rule stack_zero_loop.raw_induct
    [where P = "\<lambda>e n i st r. \<forall>st'::state. insns st' = insns st \<longrightarrow>
           (\<exists>r'. stack_zero_loop e' n i st' = Some r' \<and> insns r' = insns r)", OF _ assms])
  fix loop :: "env \<Rightarrow> node \<Rightarrow> 64 word \<Rightarrow> state \<Rightarrow> state option"
  fix e n i st r
  assume ih: "\<And>e n i st r. loop e n i st = Some r \<Longrightarrow>
     \<forall>st'::state. insns st' = insns st \<longrightarrow>
           (\<exists>r'. stack_zero_loop e' n i st' = Some r' \<and> insns r' = insns r)"
  assume step: "(if i < dyn_size (dyn n)
      then loop e n (i + 8) (emit e (STXDW BPF_REG_10 (ucast (dyn_addr (dyn n) + i)) BPF_REG_0) st)
      else Some st) = Some r"
  show "\<forall>st'::state. insns st' = insns st \<longrightarrow>
           (\<exists>r'. stack_zero_loop e' n i st' = Some r' \<and> insns r' = insns r)"
  proof (intro allI impI)
    fix st' :: state assume eq: "insns st' = insns st"
    show "\<exists>r'. stack_zero_loop e' n i st' = Some r' \<and> insns r' = insns r"
    proof (cases "i < dyn_size (dyn n)")
      case True
      let ?s = "STXDW BPF_REG_10 (ucast (dyn_addr (dyn n) + i)) BPF_REG_0"
      from True step have "loop e n (i + 8) (emit e ?s st) = Some r" by simp
      from ih[OF this]
      have "insns (emit e' ?s st') = insns (emit e ?s st) \<longrightarrow>
            (\<exists>r'. stack_zero_loop e' n (i + 8) (emit e' ?s st') = Some r' \<and> insns r' = insns r)"
        by (rule spec)
      with eq obtain r' where
        "stack_zero_loop e' n (i + 8) (emit e' ?s st') = Some r'" "insns r' = insns r"
        by (auto simp: insns_emit)
      then show ?thesis using True by (subst stack_zero_loop.simps) simp
    next
      case False
      with step eq show ?thesis by (subst stack_zero_loop.simps) simp
    qed
  qed
qed

lemma stack_zero_loop_same:
  assumes "insns s = insns t"
  shows "rel_option (\<lambda>a b. insns a = insns b) (stack_zero_loop e n i s) (stack_zero_loop e' n i t)"
proof (cases "stack_zero_loop e n i s")
  case None
  show ?thesis
  proof (cases "stack_zero_loop e' n i t")
    case None': None
    with None show ?thesis by simp
  next
    case (Some r')
    from stack_zero_loop_sim[OF this, of e] assms None show ?thesis by auto
  qed
next
  case (Some r)
  from stack_zero_loop_sim[OF this, of e'] assms show ?thesis using Some by auto
qed

lemma emit_stack_zero_same:
  assumes "insns s = insns t"
  shows "same_res (emit_stack_zero e n s) (emit_stack_zero e' n t)"
proof -
  have "insns (emit e (MOV_IMM BPF_REG_0 0) s) = insns (emit e' (MOV_IMM BPF_REG_0 0) t)"
    using assms by (simp add: insns_emit)
  from stack_zero_loop_same[OF this, of e n 0 e'] show ?thesis
    by (auto simp: emit_stack_zero_def same_res_def elim!: option.rel_cases)
qed

lemma xfer_literal_loop_same:
  "insns s = insns t \<Longrightarrow>
   rel_option (\<lambda>a b. insns a = insns b) (xfer_literal_loop e at sz ws s) (xfer_literal_loop e' at sz ws t)"
  by (induction ws arbitrary: at sz s t) (auto simp: insns_emit)

lemma emit_xfer_literal_same:
  assumes "insns s = insns t"
  shows "same_res (emit_xfer_literal e to ws sz s) (emit_xfer_literal e' to ws sz t)"
proof (cases "dyn_loc (dyn to)")
  case LOC_STACK
  from xfer_literal_loop_same[OF assms, of e "dyn_addr (dyn to)" sz ws e'] LOC_STACK
  show ?thesis
    by (auto simp: emit_xfer_literal_def same_res_def elim!: option.rel_cases)
qed (use assms in \<open>auto simp: emit_xfer_literal_def same_res_def insns_emit split: option.splits\<close>)

lemma emit_xfer_reg_same:
  "insns s = insns t \<Longrightarrow> same_res (emit_xfer_reg e to r s) (emit_xfer_reg e' to r t)"
  by (auto simp: emit_xfer_reg_def insns_emit split: loc_t.splits)

lemma emit_xfer_stack_same:
  "insns s = insns t \<Longrightarrow> same_res (emit_xfer_stack e to a s) (emit_xfer_stack e' to a t)"
  by (auto simp: emit_xfer_stack_def insns_emit split: loc_t.splits)

lemma emit_xfer_same:
  "insns s = insns t \<Longrightarrow> same_res (emit_xfer e to from s) (emit_xfer e' to from t)"
  by (auto simp: emit_xfer_def emit_xfer_literal_same emit_xfer_reg_same emit_xfer_stack_same
      split: payload.splits loc_t.splits)

lemma emit_map_load_same:
  assumes "same_ext e e'" "insns s = insns t"
  shows "same_res (emit_map_load e n s) (emit_map_load e' n t)"
proof (cases "parent_type (parent n) = TYPE_ASSIGN \<and> parent_assign_op (parent n) = ALU_OP_MOV")
  case True
  with assms show ?thesis by (simp add: emit_map_load_def)
next
  case False
  from emit_stack_zero_same[OF assms(2), of e n e'] assms(1) False show ?thesis
    by (auto simp: emit_map_load_def same_res_def same_ext_def emit_ld_mapfd_def insns_emits
        insns_emit split: option.splits payload.splits)
qed

lemma emit_assign_same:
  assumes "same_ext e e'" "insns s = insns t"
  shows "same_res (emit_assign e n s) (emit_assign e' n t)"
proof (cases "u n")
  case (P_Assign opr lval expr)
  have tail: "same_res
      (case u lval of
         P_Map rec \<Rightarrow> Some (0, emits e (xs rec) (emit_ld_mapfd e BPF_REG_1 (node_map_get_fd e lval) s2))
       | _ \<Rightarrow> None)
      (case u lval of
         P_Map rec \<Rightarrow> Some (0, emits e' (xs rec) (emit_ld_mapfd e' BPF_REG_1 (node_map_get_fd e' lval) t2))
       | _ \<Rightarrow> None)"
    if "insns s2 = insns t2" for s2 t2 xs
    using that assms(1)
    by (auto simp: same_ext_def emit_ld_mapfd_def insns_emits insns_emit split: payload.splits)
  have head: "same_res
      (if opr = ALU_OP_MOV
       then (case u expr of P_Int _ \<Rightarrow> emit_xfer e lval expr s | _ \<Rightarrow> Some (0, s))
       else bind_err (emit_xfer e n lval s)
              (\<lambda>st1. emit_xfer e lval n
                 (case u expr of
                    P_Int integer \<Rightarrow> emit e (ALU_IMM opr (ucast (dyn_reg (dyn n))) (ucast integer)) st1
                  | _ \<Rightarrow> emit e (ALU opr (ucast (dyn_reg (dyn n))) (ucast (dyn_reg (dyn expr)))) st1)))
      (if opr = ALU_OP_MOV
       then (case u expr of P_Int _ \<Rightarrow> emit_xfer e' lval expr t | _ \<Rightarrow> Some (0, t))
       else bind_err (emit_xfer e' n lval t)
              (\<lambda>st1. emit_xfer e' lval n
                 (case u expr of
                    P_Int integer \<Rightarrow> emit e' (ALU_IMM opr (ucast (dyn_reg (dyn n))) (ucast integer)) st1
                  | _ \<Rightarrow> emit e' (ALU opr (ucast (dyn_reg (dyn n))) (ucast (dyn_reg (dyn expr)))) st1)))"
  proof (cases "opr = ALU_OP_MOV")
    case True
    with assms(2) show ?thesis
      by (auto simp: emit_xfer_same split: payload.splits)
  next
    case False
    show ?thesis
      apply (simp only: False if_False)
      apply (rule same_res_bind[OF emit_xfer_same[OF assms(2)]])
      apply (rule emit_xfer_same)
      apply (simp add: insns_emit split: payload.splits)
      done
  qed
  show ?thesis
    unfolding emit_assign_def P_Assign payload.case
    by (rule same_res_bind[OF head]) (rule tail)
qed (simp_all add: emit_assign_def)

lemma compile_post_same:
  assumes "same_ext e e'" "insns s = insns t"
  shows "same_res (compile_post e n s) (compile_post e' n t)"
proof (cases "u n")
  case (P_Str x)
  from emit_xfer_same[OF assms(2), of e n n e'] show ?thesis
    by (auto simp: compile_post_def P_Str same_res_def split: option.splits)
next
  case (P_Call x)
  with assms show ?thesis
    by (auto simp: compile_post_def same_ext_def insns_emits split: prod.splits)
qed (use assms in \<open>simp_all add: compile_post_def emit_map_load_same emit_assign_same\<close>)

lemma walk_list_same:
  assumes "\<And>n s t. n \<in> set ns \<Longrightarrow> insns s = insns t \<Longrightarrow>
             same_res (node_walk pre post n s) (node_walk pre' post' n t)"
  shows "insns s = insns t \<Longrightarrow>
         same_res (walk_list pre post ns s) (walk_list pre' post' ns t)"
  using assms
proof (induction ns arbitrary: s t)
  case Nil
  then show ?case by simp
next
  case (Cons n ns)
  have hd: "same_res (node_walk pre post n s) (node_walk pre' post' n t)"
    using Cons.prems by simp
  have tl: "same_res (walk_list pre post ns s1) (walk_list pre' post' ns t1)"
    if "insns s1 = insns t1" for s1 t1
    using that Cons.prems(2) by (intro Cons.IH) simp_all
  show ?case
    unfolding walk_list.simps by (rule same_res_bind[OF hd tl])
qed

lemma node_walk_same_aux:
  assumes pre: "\<And>n s t. insns s = insns t \<Longrightarrow> same_res (pre n s) (pre' n t)"
    and post: "\<And>n s t. insns s = insns t \<Longrightarrow> same_res (post n s) (post' n t)"
  shows "\<forall>s t. insns s = insns t \<longrightarrow>
           same_res (node_walk pre post n s) (node_walk pre' post' n t)"
    and "\<forall>s t. insns s = insns t \<longrightarrow>
           same_res (walk_payload pre post pl s) (walk_payload pre' post' pl t)"
proof (induction n and pl)
  case (Node d p pl)
  show ?case
  proof (intro allI impI)
    fix s t :: state assume eq: "insns s = insns t"
    have inner: "same_res (bind_err (walk_payload pre post pl s1) (post (Node d p pl)))
                          (bind_err (walk_payload pre' post' pl t1) (post' (Node d p pl)))"
      if "insns s1 = insns t1" for s1 t1
      using Node that post by (intro same_res_bind) simp_all
    show "same_res (node_walk pre post (Node d p pl) s) (node_walk pre' post' (Node d p pl) t)"
      unfolding node_walk.simps by (rule same_res_bind[OF pre[OF eq] inner])
  qed
next
  case (P_Probe predo stmts)
  show ?case
  proof (cases predo)
    case None
    with P_Probe(2) show ?thesis by (auto intro!: walk_list_same)
  next
    case (Some pred)
    show ?thesis
    proof (intro allI impI)
      fix s t :: state assume eq: "insns s = insns t"
      have a: "same_res (node_walk pre post pred s) (node_walk pre' post' pred t)"
        using P_Probe(1)[of pred] Some eq by simp
      have b: "same_res (walk_list pre post stmts s1) (walk_list pre' post' stmts t1)"
        if "insns s1 = insns t1" for s1 t1
        using that P_Probe(2) by (intro walk_list_same) simp_all
      show "same_res (walk_payload pre post (P_Probe predo stmts) s)
                     (walk_payload pre' post' (P_Probe predo stmts) t)"
        unfolding Some walk_payload.simps by (rule same_res_bind[OF a b])
    qed
  qed
next
  case (P_Assign opr l r)
  then show ?case by (auto intro!: same_res_bind)
next
  case (P_Binop opr l r)
  then show ?case by (auto intro!: same_res_bind)
qed (auto intro!: walk_list_same)

lemma compile_walk_same:
  assumes "same_ext e e'" "insns s = insns t"
  shows "same_res (compile_walk e n s) (compile_walk e' n t)"
proof -
  have "\<forall>s t. insns s = insns t \<longrightarrow>
          same_res (node_walk (compile_pre e) (compile_post e) n s)
                   (node_walk (compile_pre e') (compile_post e') n t)"
    by (rule node_walk_same_aux(1))
       (simp_all add: compile_pre_def compile_post_same[OF assms(1)])
  with assms(2) show ?thesis by (simp add: compile_walk_def)
qed

lemma compile_pred_same:
  assumes "same_ext e e'" "insns s = insns t"
  shows "same_res (compile_pred e p s) (compile_pred e' p t)"
proof (cases p)
  case None
  with assms show ?thesis by (simp add: compile_pred_def)
next
  case (Some pred)
  show ?thesis
    unfolding compile_pred_def Some option.case
    by (rule same_res_bind[OF compile_walk_same[OF assms]])
       (auto simp: insns_emits insns_emit split: loc_t.splits payload.splits)
qed

lemma compile_stmts_same:
  assumes "same_ext e e'"
  shows "insns s = insns t \<Longrightarrow> same_res (compile_stmts e ns s) (compile_stmts e' ns t)"
proof (induction ns arbitrary: s t)
  case Nil
  then show ?case by simp
next
  case (Cons n ns)
  show ?case
    unfolding compile_stmts.simps
    by (rule same_res_bind[OF compile_walk_same[OF assms Cons.prems]])
       (auto intro: Cons.IH)
qed

lemma compile_probe_same:
  assumes "same_ext e e'"
  shows "map_option fst (compile_probe e a p s) = map_option fst (compile_probe e' a p t)"
proof (cases "u p")
  case (P_Probe pred stmts)
  let ?s0 = "emit e (MOV BPF_REG_9 BPF_REG_1) (s\<lparr>insns := []\<rparr>)"
  let ?t0 = "emit e' (MOV BPF_REG_9 BPF_REG_1) (t\<lparr>insns := []\<rparr>)"
  have eq0: "insns ?s0 = insns ?t0" by (simp add: insns_emit)
  note pr = compile_pred_same[OF assms eq0, of pred]
  show ?thesis
  proof (cases "compile_pred e pred ?s0")
    case None
    with pr show ?thesis by (simp add: compile_probe_def P_Probe same_res_def)
  next
    case (Some r1)
    obtain err s1 where r1: "r1 = (err, s1)" by (cases r1)
    from pr Some r1 obtain t1 where t1: "compile_pred e' pred ?t0 = Some (err, t1)"
      and eq1: "insns s1 = insns t1"
      by (auto simp: same_res_def split: option.splits)
    note st = compile_stmts_same[OF assms eq1, of stmts]
    show ?thesis
    proof (cases "compile_stmts e stmts s1")
      case None
      with st Some r1 t1 show ?thesis by (simp add: compile_probe_def P_Probe same_res_def)
    next
      case (Some r2)
      obtain err2 s2 where r2: "r2 = (err2, s2)" by (cases r2)
      from st Some r2 obtain t2 where t2: "compile_stmts e' stmts t1 = Some (err2, t2)"
        and eq2: "insns s2 = insns t2"
        by (auto simp: same_res_def split: option.splits)
      show ?thesis
        using \<open>compile_pred e pred ?s0 = Some r1\<close> r1 t1 Some r2 t2 eq2
        by (simp add: compile_probe_def P_Probe Let_def insns_emits insns_emit)
    qed
  qed
qed (simp_all add: compile_probe_def)

section \<open>Properties of the code generator\<close>

lemma outcome_Some [simp]: "outcome (Some (err, st)) = Some (err, insns st)"
  by (simp add: outcome_def)

lemma outcome_None [simp]: "outcome None = None"
  by (simp add: outcome_def)

subsection \<open>Integer literals to a register\<close>

lemma not_wide_if_negative:
  fixes i :: "64 word"
  assumes "sint i < 0"
  shows "\<not> 0xffffffff <s i"
proof -
  have "sint (0xffffffff :: 64 word) = 4294967295" by simp
  with assms show ?thesis by (simp add: word_sless_alt)
qed

text \<open>
  Claim C10. The test \<^verbatim>\<open>*integer > 0xffffffff\<close> compares signed 64-bit values, so an
  integer literal whose value is negative never takes the three-instruction sequence:
  its transfer to a register destination emits exactly one immediate load into that register,
  whose 32-bit immediate is the low-order 32 bits of the value.
\<close>

theorem emit_xfer_negative_int_reg:
  assumes "dyn_loc (dyn to) = LOC_REG" and "u from = P_Int i" and "sint i < 0"
  shows "outcome (emit_xfer e to from st) =
           Some (0, insns st @ [MOV_IMM (ucast (dyn_reg (dyn to))) (ucast i)])"
  using assms(1,2) not_wide_if_negative[OF assms(3)]
  by (simp add: emit_xfer_def emit_xfer_literal_def rd_int64_int_words insns_emit)

theorem emit_xfer_negative_int_reg_witness:
  "dyn_loc (dyn (reg_node 6 P_None)) = LOC_REG \<and> u (nowhere_node (P_Int (- 2))) = P_Int (- 2) \<and>
   sint (- 2 :: 64 word) < 0 \<and>
   outcome (emit_xfer env0 (reg_node 6 P_None) (nowhere_node (P_Int (- 2))) st0) =
     Some (0, [MOV_IMM 6 0xFFFFFFFE])"
proof -
  have a: "dyn_loc (dyn (reg_node 6 P_None)) = LOC_REG" by (simp add: reg_node_def)
  have b: "u (nowhere_node (P_Int (- 2))) = P_Int (- 2)" by (simp add: nowhere_node_def)
  have c: "sint (- 2 :: 64 word) < 0" by simp
  have d: "ucast (dyn_reg (dyn (reg_node 6 P_None))) = (6 :: 4 word)" by (simp add: reg_node_def)
  have f: "(ucast (- 2 :: 64 word) :: 32 word) = 0xFFFFFFFE" by simp
  show ?thesis
    using emit_xfer_negative_int_reg[OF a b c, of env0 st0] a b c
    by (simp add: d f st0_def MOV_IMM_def INSN_def)
qed

text \<open>
  An integer literal to a register: three instructions above \<open>0xFFFFFFFF\<close>, one
  otherwise. The immediate of the or is the one of the load.
\<close>

lemma emit_xfer_wide_int_reg:
  assumes "dyn_loc (dyn to) = LOC_REG" and "u from = P_Int i" and "0xffffffff <s i"
  shows "outcome (emit_xfer e to from st) =
           Some (0, insns st @
                   [MOV_IMM (ucast (dyn_reg (dyn to))) (ucast (signed_drop_bit 32 i)),
                    ALU_IMM ALU_OP_LSH (ucast (dyn_reg (dyn to))) 32,
                    ALU_IMM ALU_OP_OR (ucast (dyn_reg (dyn to))) (ucast (signed_drop_bit 32 i))])"
  using assms
  by (simp add: emit_xfer_def emit_xfer_literal_def rd_int64_int_words insns_emit)

lemma emit_xfer_narrow_int_reg:
  assumes "dyn_loc (dyn to) = LOC_REG" and "u from = P_Int i" and "\<not> 0xffffffff <s i"
  shows "outcome (emit_xfer e to from st) =
           Some (0, insns st @ [MOV_IMM (ucast (dyn_reg (dyn to))) (ucast i)])"
  using assms
  by (simp add: emit_xfer_def emit_xfer_literal_def rd_int64_int_words insns_emit)

text \<open>
  Claim C1. For an integer literal above \<open>0xFFFFFFFF\<close> and a register destination the
  claim asks for: load of the high 32 bits, shift left by 32, or with the low 32 bits. The
  source passes \<^verbatim>\<open>(*integer) >> 32\<close> to the or as well. At the literal \<open>0x100000002\<close>
  and register 6 the emitted or has immediate 1 (the high half), where the low half is 2.
\<close>

theorem emit_xfer_wide_int_reg_example:
  "outcome (emit_xfer env0 (reg_node 6 P_None) (nowhere_node (P_Int 0x100000002)) st0) =
     Some (0, [MOV_IMM 6 1, ALU_IMM ALU_OP_LSH 6 32, ALU_IMM ALU_OP_OR 6 1]) \<and>
   (ucast (0x100000002 :: 64 word) :: 32 word) = 2 \<and>
   imm (ALU_IMM ALU_OP_OR 6 1) \<noteq> 2"
  by (simp add: outcome_def emit_xfer_def emit_xfer_literal_def reg_node_def nowhere_node_def
      int_words_def st0_def env0_def emit_def dump_insn_def word_sless_alt ALU_IMM_def INSN_def)

subsection \<open>Transfers to an unresolved destination\<close>

text \<open>
  Claim C6, as stated, fails: with an unresolved destination and an unresolved source that
  is not a literal, \<^verbatim>\<open>emit_xfer\<close> looks at the source first and reports the unknown
  source, not the unknown destination.
\<close>

theorem emit_xfer_unresolved_source_counterexample:
  "unknown_source st0 (emit_xfer env0 (nowhere_node P_None) (nowhere_node (P_Not (nowhere_node P_None))) st0) \<and>
   \<not> unknown_destination st0
       (emit_xfer env0 (nowhere_node P_None) (nowhere_node (P_Not (nowhere_node P_None))) st0)"
  by (simp add: unknown_source_def unknown_destination_def emit_xfer_def nowhere_node_def
      log_e_def st0_def)

text \<open>
  Claim C6, amended. For every destination whose location is unresolved, \<^verbatim>\<open>emit_xfer\<close>
  fails with \<^verbatim>\<open>-EINVAL\<close> and emits no instruction, for every source. The failure reported is
  the unknown destination when the source is an integer literal, a blob literal, or resolved to
  a register or the stack; for an unresolved source that is not a literal it is the
  unknown source.
\<close>

theorem emit_xfer_unresolved_destination:
  assumes "dyn_loc (dyn to) = LOC_NOWHERE"
  shows "(if ntype from = TYPE_INT \<or> ntype from = TYPE_STR \<or> dyn_loc (dyn from) \<noteq> LOC_NOWHERE
          then unknown_destination st (emit_xfer e to from st)
          else unknown_source st (emit_xfer e to from st)) \<and>
         outcome (emit_xfer e to from st) = Some (- EINVAL, insns st)"
  using assms
  by (cases "u from"; cases "dyn_loc (dyn from)")
     (simp_all add: emit_xfer_def emit_xfer_literal_def emit_xfer_reg_def emit_xfer_stack_def
       unknown_destination_def unknown_source_def ntype_def)

theorem emit_xfer_unresolved_destination_witness:
  "dyn_loc (dyn (nowhere_node P_None)) = LOC_NOWHERE \<and>
   unknown_destination st0 (emit_xfer env0 (nowhere_node P_None) (reg_node 7 (P_Call [])) st0) \<and>
   outcome (emit_xfer env0 (nowhere_node P_None) (reg_node 7 (P_Call [])) st0) = Some (- 22, [])"
proof -
  have a: "dyn_loc (dyn (nowhere_node P_None)) = LOC_NOWHERE" by (simp add: nowhere_node_def)
  show ?thesis
    using emit_xfer_unresolved_destination[OF a, of "reg_node 7 (P_Call [])" st0 env0] a
    by (simp add: reg_node_def ntype_def st0_def)
qed

subsection \<open>The stub cases of the dispatcher\<close>

text \<open>
  Claim C4, as stated, fails: on a logical-not node \<^verbatim>\<open>compile_post\<close> returns 0 and
  leaves the state as it was; it does not return \<^verbatim>\<open>-ENOSYS\<close>.
\<close>

theorem compile_post_stub_counterexample:
  "compile_post env0 (nowhere_node (P_Not (nowhere_node (P_Int 1)))) st0 = Some (0, st0) \<and>
   compile_post env0 (nowhere_node (P_Not (nowhere_node (P_Int 1)))) st0 \<noteq>
     Some (- ENOSYS, log_e ''unable to compile %s <%s>'' st0)"
  by (simp add: compile_post_def nowhere_node_def)

text \<open>
  Claim C4, amended. Dispatching a logical-not, binary-op or return node in
  \<^verbatim>\<open>compile_post\<close> succeeds (return code 0) without emitting an instruction and without
  reporting anything: the three cases are empty stubs, and the compilation goes on.
\<close>

theorem compile_post_stub:
  assumes "ntype n = TYPE_NOT \<or> ntype n = TYPE_BINOP \<or> ntype n = TYPE_RETURN"
  shows "compile_post e n st = Some (0, st)"
  using assms by (cases "u n") (simp_all add: compile_post_def ntype_def)

theorem compile_post_stub_witness:
  "ntype (nowhere_node (P_Return (nowhere_node (P_Int 1)))) = TYPE_RETURN \<and>
   compile_post env0 (nowhere_node (P_Return (nowhere_node (P_Int 1)))) st0 = Some (0, st0)"
proof -
  have a: "ntype (nowhere_node (P_Return (nowhere_node (P_Int 1)))) = TYPE_RETURN"
    by (simp add: ntype_def nowhere_node_def)
  then have "ntype (nowhere_node (P_Return (nowhere_node (P_Int 1)))) = TYPE_NOT \<or>
     ntype (nowhere_node (P_Return (nowhere_node (P_Int 1)))) = TYPE_BINOP \<or>
     ntype (nowhere_node (P_Return (nowhere_node (P_Int 1)))) = TYPE_RETURN" by simp
  from compile_post_stub[OF this, of env0 st0] a show ?thesis by simp
qed

subsection \<open>Zero-fill\<close>

lemma length_zero_stores [simp]: "length (zero_stores n k m) = m - k"
  by (simp add: zero_stores_def)

lemma frame_offsets_zero_stores:
  assumes "- 32768 \<le> sint (dyn_addr (dyn n))" "sint (dyn_addr (dyn n)) + 8 * int m \<le> 32768"
  shows "frame_offsets (zero_stores n 0 m) = map (\<lambda>k. sint (dyn_addr (dyn n)) + 8 * int k) [0..<m]"
proof -
  have "sint (ucast (dyn_addr (dyn n) + 8 * of_nat k) :: 16 word) = sint (dyn_addr (dyn n)) + 8 * int k"
    if "k < m" for k
  proof -
    have "sint (ucast (dyn_addr (dyn n) + of_nat (8 * k)) :: 16 word) = sint (dyn_addr (dyn n)) + int (8 * k)"
      using assms that by (intro sint_off16) simp_all
    then show ?thesis by simp
  qed
  then show ?thesis
    by (simp add: frame_offsets_def zero_stores_def STXDW_def INSN_def)
qed

lemma sorted_affine:
  "0 < c \<Longrightarrow> sorted_wrt (<) (map (\<lambda>k. (a::int) + c * int k) [0..<m])"
  by (simp add: sorted_wrt_map sorted_wrt_iff_nth_less)

lemma emit_stack_zero_run:
  assumes "8 dvd unat (dyn_size (dyn n))"
  shows "emit_stack_zero e n st =
     Some (0, emits e (zero_stores n 0 (unat (dyn_size (dyn n)) div 8))
                (emit e (MOV_IMM BPF_REG_0 0) st))"
proof -
  let ?m = "unat (dyn_size (dyn n)) div 8"
  have eq: "8 * ?m = unat (dyn_size (dyn n))" using assms by simp
  have "unat (dyn_size (dyn n)) < 2 ^ 64" using unsigned_less[of "dyn_size (dyn n)"] by simp
  with eq have "8 * ?m < 2 ^ 64" by simp
  from stack_zero_loop_run[OF this, of n 0 e] eq
  have "stack_zero_loop e n 0 st' = Some (emits e (zero_stores n 0 ?m) st')" for st'
    by simp
  then show ?thesis by (simp add: emit_stack_zero_def)
qed

text \<open>
  Claim C7, as stated, fails: for a node of size 16 at frame offset 32760 the two stores
  carry the offsets 32760 and -32768, because the offset field has 16 bits. The offsets
  are not increasing.
\<close>

theorem emit_stack_zero_counterexample:
  "outcome (emit_stack_zero env0 (stack_node 32760 16 P_None) st0) =
     Some (0, [MOV_IMM 0 0, STXDW 10 0x7FF8 0, STXDW 10 0x8000 0]) \<and>
   frame_offsets [STXDW 10 0x7FF8 0, STXDW 10 0x8000 0] = [32760, - 32768]"
  by (simp add: outcome_def emit_stack_zero_def stack_zero_loop.simps stack_node_def
      st0_def env0_def emit_def dump_insn_def frame_offsets_def STXDW_def INSN_def)

text \<open>
  Claim C7, amended. For every node whose declared size \<open>N\<close> is a multiple of 8,
  \<^verbatim>\<open>emit_stack_zero\<close> returns 0 and emits exactly \<open>1 + N/8\<close> instructions: a load of
  immediate zero into register 0, then \<open>N/8\<close> double-word stores of register 0 relative to
  register 10, store \<open>k\<close> at the node's base offset plus \<open>8 * k\<close> in the 16-bit offset
  field. When the node's area lies within the range of that field
  (\<open>-32768 \<le> addr\<close> and \<open>addr + N \<le> 32768\<close>), the offsets are the numbers
  \<open>addr + 8 * k\<close>, strictly increasing from the base offset.
\<close>

theorem emit_stack_zero_multiple_of_8:
  assumes "8 dvd unat (dyn_size (dyn n))"
  shows "outcome (emit_stack_zero e n st) =
           Some (0, insns st @ MOV_IMM BPF_REG_0 0 #
                      zero_stores n 0 (unat (dyn_size (dyn n)) div 8)) \<and>
         length (MOV_IMM BPF_REG_0 0 # zero_stores n 0 (unat (dyn_size (dyn n)) div 8)) =
           1 + unat (dyn_size (dyn n)) div 8 \<and>
         (- 32768 \<le> sint (dyn_addr (dyn n)) \<and>
          sint (dyn_addr (dyn n)) + int (unat (dyn_size (dyn n))) \<le> 32768 \<longrightarrow>
            frame_offsets (zero_stores n 0 (unat (dyn_size (dyn n)) div 8)) =
              map (\<lambda>k. sint (dyn_addr (dyn n)) + 8 * int k) [0..<unat (dyn_size (dyn n)) div 8] \<and>
            sorted_wrt (<) (frame_offsets (zero_stores n 0 (unat (dyn_size (dyn n)) div 8))))"
proof -
  let ?m = "unat (dyn_size (dyn n)) div 8"
  have eq: "8 * int ?m = int (unat (dyn_size (dyn n)))" using assms by presburger
  have a: "outcome (emit_stack_zero e n st) =
           Some (0, insns st @ MOV_IMM BPF_REG_0 0 # zero_stores n 0 ?m)"
    by (simp add: emit_stack_zero_run[OF assms] insns_emits insns_emit)
  have b: "frame_offsets (zero_stores n 0 ?m) = map (\<lambda>k. sint (dyn_addr (dyn n)) + 8 * int k) [0..<?m]"
    if "- 32768 \<le> sint (dyn_addr (dyn n))"
       "sint (dyn_addr (dyn n)) + int (unat (dyn_size (dyn n))) \<le> 32768"
    using that eq by (intro frame_offsets_zero_stores) simp_all
  have c: "sorted_wrt (<) (map (\<lambda>k. sint (dyn_addr (dyn n)) + 8 * int k) [0..<?m])"
    by (rule sorted_affine) simp
  from a b c show ?thesis by simp
qed

theorem emit_stack_zero_multiple_of_8_witness:
  "8 dvd unat (dyn_size (dyn (stack_node (- 16) 16 P_None))) \<and>
   outcome (emit_stack_zero env0 (stack_node (- 16) 16 P_None) st0) =
     Some (0, [MOV_IMM 0 0, STXDW 10 0xFFF0 0, STXDW 10 0xFFF8 0]) \<and>
   frame_offsets (zero_stores (stack_node (- 16) 16 P_None) 0 2) = [- 16, - 8]"
proof -
  have a: "8 dvd unat (dyn_size (dyn (stack_node (- 16) 16 P_None)))"
    by (simp add: stack_node_def)
  have d: "unat (dyn_size (dyn (stack_node (- 16) 16 P_None))) div 8 = 2"
    by (simp add: stack_node_def)
  have r: "- 32768 \<le> sint (dyn_addr (dyn (stack_node (- 16) 16 P_None))) \<and>
           sint (dyn_addr (dyn (stack_node (- 16) 16 P_None))) +
             int (unat (dyn_size (dyn (stack_node (- 16) 16 P_None)))) \<le> 32768"
    by (simp add: stack_node_def)
  have z: "zero_stores (stack_node (- 16) 16 P_None) 0 2 = [STXDW 10 0xFFF0 0, STXDW 10 0xFFF8 0]"
    by (simp add: zero_stores_def stack_node_def upt_conv_Cons STXDW_def INSN_def)
  have s: "sint (dyn_addr (dyn (stack_node (- 16) 16 P_None))) = - 16"
    by (simp add: stack_node_def)
  show ?thesis
    using emit_stack_zero_multiple_of_8[OF a, of env0 st0] a r
    by (simp add: d z s st0_def upt_conv_Cons)
qed

subsection \<open>Literals to the stack\<close>

lemma length_literal_stores [simp]: "length (literal_stores at ws k) = k"
  by (simp add: literal_stores_def)

lemma imm_literal_stores:
  "k \<le> length ws \<Longrightarrow> map imm (literal_stores at ws k) = take k ws"
  by (rule nth_equalityI) (simp_all add: literal_stores_def STW_IMM_def INSN_def)

lemma frame_offsets_literal_stores:
  assumes "- 32768 \<le> sint at" "sint at + 4 * int k \<le> 32768"
  shows "frame_offsets (literal_stores at ws k) = map (\<lambda>j. sint at + 4 * int j) [0..<k]"
proof -
  have "sint (ucast (at + 4 * of_nat j) :: 16 word) = sint at + 4 * int j" if "j < k" for j
  proof -
    have "sint (ucast (at + of_nat (4 * j)) :: 16 word) = sint at + int (4 * j)"
      using assms that by (intro sint_off16) simp_all
    then show ?thesis by simp
  qed
  then show ?thesis
    by (simp add: frame_offsets_def literal_stores_def STW_IMM_def INSN_def)
qed

lemma emit_xfer_literal_stack_run:
  assumes "dyn_loc (dyn to) = LOC_STACK" "4 dvd unat sz" "unat sz div 4 \<le> length ws"
  shows "emit_xfer_literal e to ws sz st =
           Some (0, emits e (literal_stores (dyn_addr (dyn to)) ws (unat sz div 4)) st)"
proof -
  have "unat sz = 4 * (unat sz div 4)" using assms(2) by simp
  from xfer_literal_loop_run[OF this assms(3)] assms(1) show ?thesis
    by (simp add: emit_xfer_literal_def)
qed

lemma emit_xfer_literal_unfold:
  assumes "ntype from = TYPE_INT \<or> ntype from = TYPE_STR"
  shows "emit_xfer e to from st = emit_xfer_literal e to (lit_words from) (lit_size from) st"
  using assms
  by (cases "u from") (simp_all add: emit_xfer_def lit_words_def lit_size_def ntype_def)

text \<open>
  Claim C8, as stated, fails: for the integer literal \<open>0x200000001\<close> and a stack
  destination at frame offset 32764 the two stores carry the offsets 32764 and -32768,
  because the offset field has 16 bits. The offsets are not increasing.
\<close>

theorem emit_xfer_literal_stack_counterexample:
  "outcome (emit_xfer env0 (stack_node 32764 8 P_None) (nowhere_node (P_Int 0x200000001)) st0) =
     Some (0, [STW_IMM 10 0x7FFC 1, STW_IMM 10 0x8000 2]) \<and>
   frame_offsets [STW_IMM 10 0x7FFC 1, STW_IMM 10 0x8000 2] = [32764, - 32768]"
  by (simp add: outcome_def emit_xfer_def emit_xfer_literal_def stack_node_def nowhere_node_def
      int_words_def st0_def env0_def emit_def dump_insn_def STW_IMM_def INSN_def frame_offsets_def)

text \<open>
  Claim C8, amended. For every literal source (an integer, with transfer size 8, or a blob,
  with its declared size) transferred to a stack destination, when the transfer size is a
  multiple of 4 and the literal's memory holds that many bytes, \<^verbatim>\<open>emit_xfer\<close> returns 0
  and emits exactly size/4 32-bit immediate stores relative to register 10, store \<open>k\<close> at
  the destination's base offset plus \<open>4 * k\<close> in the 16-bit offset field, with the
  literal's consecutive 4-byte words as immediates. When the destination's area lies within
  the range of that field (\<open>-32768 \<le> addr\<close> and \<open>addr + size \<le> 32768\<close>), the
  offsets are the numbers \<open>addr + 4 * k\<close>, strictly increasing from the base offset.
\<close>

theorem emit_xfer_literal_stack:
  assumes "dyn_loc (dyn to) = LOC_STACK"
    and "ntype from = TYPE_INT \<or> ntype from = TYPE_STR"
    and "4 dvd unat (lit_size from)"
    and "unat (lit_size from) div 4 \<le> length (lit_words from)"
  shows "outcome (emit_xfer e to from st) =
           Some (0, insns st @
                      literal_stores (dyn_addr (dyn to)) (lit_words from) (unat (lit_size from) div 4)) \<and>
         length (literal_stores (dyn_addr (dyn to)) (lit_words from) (unat (lit_size from) div 4)) =
           unat (lit_size from) div 4 \<and>
         map imm (literal_stores (dyn_addr (dyn to)) (lit_words from) (unat (lit_size from) div 4)) =
           take (unat (lit_size from) div 4) (lit_words from) \<and>
         (- 32768 \<le> sint (dyn_addr (dyn to)) \<and>
          sint (dyn_addr (dyn to)) + int (unat (lit_size from)) \<le> 32768 \<longrightarrow>
            frame_offsets
              (literal_stores (dyn_addr (dyn to)) (lit_words from) (unat (lit_size from) div 4)) =
              map (\<lambda>k. sint (dyn_addr (dyn to)) + 4 * int k) [0..<unat (lit_size from) div 4] \<and>
            sorted_wrt (<) (frame_offsets
              (literal_stores (dyn_addr (dyn to)) (lit_words from) (unat (lit_size from) div 4))))"
proof -
  let ?k = "unat (lit_size from) div 4"
  let ?at = "dyn_addr (dyn to)"
  have eq: "4 * int ?k = int (unat (lit_size from))" using assms(3) by presburger
  have a: "outcome (emit_xfer e to from st) =
             Some (0, insns st @ literal_stores ?at (lit_words from) ?k)"
    by (simp add: emit_xfer_literal_unfold[OF assms(2)]
        emit_xfer_literal_stack_run[OF assms(1,3,4)] insns_emits)
  have b: "map imm (literal_stores ?at (lit_words from) ?k) = take ?k (lit_words from)"
    by (rule imm_literal_stores[OF assms(4)])
  have c: "frame_offsets (literal_stores ?at (lit_words from) ?k) =
             map (\<lambda>k. sint ?at + 4 * int k) [0..<?k]"
    if "- 32768 \<le> sint ?at" "sint ?at + int (unat (lit_size from)) \<le> 32768"
    using that eq by (intro frame_offsets_literal_stores) simp_all
  have d: "sorted_wrt (<) (map (\<lambda>k. sint ?at + 4 * int k) [0..<?k])"
    by (rule sorted_affine) simp
  from a b c d show ?thesis by simp
qed

theorem emit_xfer_literal_stack_witness:
  "dyn_loc (dyn (stack_node (- 8) 8 P_None)) = LOC_STACK \<and>
   ntype (nowhere_node (P_Str [0x61, 0x62, 0x63, 0x64, 0x65, 0, 0, 0])) = TYPE_STR \<and>
   4 dvd unat (lit_size (nowhere_node (P_Str [0x61, 0x62, 0x63, 0x64, 0x65, 0, 0, 0]))) \<and>
   unat (lit_size (nowhere_node (P_Str [0x61, 0x62, 0x63, 0x64, 0x65, 0, 0, 0]))) div 4
     \<le> length (lit_words (nowhere_node (P_Str [0x61, 0x62, 0x63, 0x64, 0x65, 0, 0, 0]))) \<and>
   outcome (emit_xfer env0 (stack_node (- 8) 8 P_None)
              (nowhere_node (P_Str [0x61, 0x62, 0x63, 0x64, 0x65, 0, 0, 0])) st0) =
     Some (0, [STW_IMM 10 0xFFF8 0x64636261, STW_IMM 10 0xFFFC 0x65]) \<and>
   frame_offsets [STW_IMM 10 0xFFF8 0x64636261, STW_IMM 10 0xFFFC 0x65] = [- 8, - 4]"
proof -
  let ?to = "stack_node (- 8) 8 P_None"
  let ?from = "nowhere_node (P_Str [0x61, 0x62, 0x63, 0x64, 0x65, 0, 0, 0])"
  have a: "dyn_loc (dyn ?to) = LOC_STACK" by (simp add: stack_node_def)
  have b: "ntype ?from = TYPE_STR" by (simp add: ntype_def nowhere_node_def)
  then have b': "ntype ?from = TYPE_INT \<or> ntype ?from = TYPE_STR" by simp
  have sz: "lit_size ?from = 8" by (simp add: lit_size_def nowhere_node_def)
  have ws: "lit_words ?from = [0x64636261, 0x65]" by (simp add: lit_words_def nowhere_node_def)
  have c: "4 dvd unat (lit_size ?from)" by (simp add: sz)
  have d: "unat (lit_size ?from) div 4 \<le> length (lit_words ?from)" by (simp add: sz ws)
  have k: "unat (lit_size ?from) div 4 = 2" by (simp add: sz)
  have ls: "literal_stores (dyn_addr (dyn ?to)) (lit_words ?from) 2 =
              [STW_IMM 10 0xFFF8 0x64636261, STW_IMM 10 0xFFFC 0x65]"
    by (simp add: ws literal_stores_def stack_node_def upt_conv_Cons STW_IMM_def INSN_def)
  have fo: "frame_offsets [STW_IMM 10 0xFFF8 0x64636261, STW_IMM 10 0xFFFC 0x65] = [- 8, - 4]"
    by (simp add: frame_offsets_def STW_IMM_def INSN_def)
  show ?thesis
    using emit_xfer_literal_stack[OF a b' c d, of env0 st0] a b c d
    by (simp add: k ls fo st0_def)
qed

subsection \<open>Map load\<close>

lemma emit_stack_zero_returns:
  assumes "unat (dyn_size (dyn n)) \<le> 2 ^ 64 - 8"
  shows "emit_stack_zero e n st =
     Some (0, emits e (zero_stores n 0 ((unat (dyn_size (dyn n)) + 7) div 8))
                (emit e (MOV_IMM BPF_REG_0 0) st))"
proof -
  let ?m = "(unat (dyn_size (dyn n)) + 7) div 8"
  have a: "8 * ?m < 2 ^ 64" using assms by simp
  have b: "unat (dyn_size (dyn n)) \<le> 8 * ?m" by simp
  have c: "8 * ?m < unat (dyn_size (dyn n)) + 8" by simp
  from stack_zero_loop_run[OF a b c, of 0 e]
  have "stack_zero_loop e n 0 st' = Some (emits e (zero_stores n 0 ?m) st')" for st'
    by simp
  then show ?thesis by (simp add: emit_stack_zero_def)
qed

lemma emit_stack_zero_grows:
  assumes "emit_stack_zero e n st = Some (r, st1)"
  shows "\<exists>xs. insns st1 = insns st @ MOV_IMM BPF_REG_0 0 # xs"
proof -
  from assms have "stack_zero_loop e n 0 (emit e (MOV_IMM BPF_REG_0 0) st) = Some st1"
    by (auto simp: emit_stack_zero_def)
  from stack_zero_loop_grows[OF this] show ?thesis by (auto simp: insns_emit)
qed

lemma ucast_word_of_int_32: "(ucast (word_of_int z :: 64 word) :: 32 word) = word_of_int z"
  by (rule bit_word_eqI) (auto simp add: bit_simps)

lemma sint_imm32_signed:
  fixes a :: "64 word"
  assumes "- 2147483648 \<le> sint a" "sint a < 2147483648"
  shows "sint (ucast a :: 32 word) = sint a"
proof -
  have "a = word_of_int (sint a)" by simp
  then have "(ucast a :: 32 word) = word_of_int (sint a)"
    by (metis ucast_word_of_int_32)
  then have "sint (ucast a :: 32 word) = signed_take_bit 31 (sint a)"
    by (simp only: sint_sbintrunc') simp
  also have "\<dots> = sint a"
    using assms by (intro signed_take_bit_int_eq_self) simp_all
  finally show ?thesis .
qed

lemma sint_imm32_unsigned:
  fixes a :: "64 word"
  assumes "unat a < 2147483648"
  shows "sint (ucast a :: 32 word) = int (unat a)"
proof -
  define k where "k = unat a"
  have k: "k < 2147483648" using assms by (simp add: k_def)
  have "a = word_of_int (int k)" by (simp add: k_def)
  then have "(ucast a :: 32 word) = word_of_int (int k)"
    by (metis ucast_word_of_int_32)
  then have "sint (ucast a :: 32 word) = signed_take_bit 31 (int k)"
    by (simp only: sint_sbintrunc') simp
  also have "\<dots> = int k"
    using k by (intro signed_take_bit_int_eq_self) simp_all
  finally show ?thesis by (simp only: k_def)
qed

lemma stack_zero_loop_endless_aux:
  assumes "stack_zero_loop e n i st = Some r"
  shows "\<not> (8 dvd unat i \<and> 2 ^ 64 - 8 < unat (dyn_size (dyn n)))"
proof (rule stack_zero_loop.raw_induct
    [where P = "\<lambda>e n i st r. \<not> (8 dvd unat i \<and> 2 ^ 64 - 8 < unat (dyn_size (dyn n)))",
     OF _ assms])
  fix loop :: "env \<Rightarrow> node \<Rightarrow> 64 word \<Rightarrow> state \<Rightarrow> state option"
  fix e n i st r
  assume ih: "\<And>e n i st r. loop e n i st = Some r \<Longrightarrow>
     \<not> (8 dvd unat i \<and> 2 ^ 64 - 8 < unat (dyn_size (dyn n)))"
  assume step: "(if i < dyn_size (dyn n)
      then loop e n (i + 8) (emit e (STXDW BPF_REG_10 (ucast (dyn_addr (dyn n) + i)) BPF_REG_0) st)
      else Some st) = Some r"
  show "\<not> (8 dvd unat i \<and> 2 ^ 64 - 8 < unat (dyn_size (dyn n)))"
  proof
    assume a: "8 dvd unat i \<and> 2 ^ 64 - 8 < unat (dyn_size (dyn n))"
    from a have a1: "8 dvd unat i" and a2: "18446744073709551608 < unat (dyn_size (dyn n))"
      by simp_all
    from a1 obtain q where q: "unat i = 8 * q" by (rule dvdE)
    have lt: "unat i < 18446744073709551616" using unsigned_less[of i] by simp
    with q have "q < 2305843009213693952" by simp
    then have le: "unat i \<le> 18446744073709551608" using q by simp
    with a2 have c: "i < dyn_size (dyn n)" by (simp add: word_less_nat_alt)
    have m: "unat (i + 8) = (unat i + 8) mod 18446744073709551616"
      by (simp add: unat_word_ariths)
    have d: "8 dvd unat (i + 8)"
    proof (cases "unat i = 18446744073709551608")
      case True
      with m show ?thesis by simp
    next
      case False
      with le have "unat i + 8 < 18446744073709551616" by simp
      with m have "unat (i + 8) = 8 * (q + 1)" using q by simp
      then show ?thesis by simp
    qed
    from c step
    have "loop e n (i + 8) (emit e (STXDW BPF_REG_10 (ucast (dyn_addr (dyn n) + i)) BPF_REG_0) st) = Some r"
      by simp
    from ih[OF this] d a show False by simp
  qed
qed

lemma emit_stack_zero_endless:
  assumes "2 ^ 64 - 8 < unat (dyn_size (dyn n))"
  shows "emit_stack_zero e n st = None"
proof (cases "stack_zero_loop e n 0 (emit e (MOV_IMM BPF_REG_0 0) st)")
  case None
  then show ?thesis by (simp add: emit_stack_zero_def)
next
  case (Some r)
  from stack_zero_loop_endless_aux[OF this] assms show ?thesis by simp
qed

lemma emit_map_load_plain:
  "plain_overwrite n \<Longrightarrow> emit_map_load e n st = Some (0, st)"
  by (simp add: emit_map_load_def plain_overwrite_def)

lemma emit_map_load_full:
  assumes "\<not> plain_overwrite n" "u n = P_Map rec"
  shows "outcome (emit_map_load e n st) =
           (case outcome (emit_stack_zero e n st) of
              None \<Rightarrow> None
            | Some (_, zs) \<Rightarrow> Some (0, zs @ map_lookup_seq e n rec @ map_copy_seq n))"
proof (cases "emit_stack_zero e n st")
  case None
  with assms show ?thesis by (simp add: emit_map_load_def plain_overwrite_def)
next
  case (Some p)
  obtain r st1 where p: "p = (r, st1)" by (cases p)
  have np: "\<not> (parent_type (parent n) = TYPE_ASSIGN \<and> parent_assign_op (parent n) = ALU_OP_MOV)"
    using assms(1) by (simp add: plain_overwrite_def)
  show ?thesis
    unfolding emit_map_load_def if_not_P[OF np] Some p assms(2)
    by (simp add: insns_emits insns_emit emit_ld_mapfd_def map_lookup_seq_def map_copy_seq_def)
qed

lemma emit_map_load_endless:
  assumes "\<not> plain_overwrite n" "2 ^ 64 - 8 < unat (dyn_size (dyn n))"
  shows "emit_map_load e n st = None"
  using assms(1) emit_stack_zero_endless[OF assms(2)]
  by (simp add: emit_map_load_def plain_overwrite_def)

lemma emit_map_load_explicit:
  assumes "\<not> plain_overwrite n" "u n = P_Map rec" "unat (dyn_size (dyn n)) \<le> 2 ^ 64 - 8"
  shows "outcome (emit_map_load e n st) =
           Some (0, insns st @
                      MOV_IMM BPF_REG_0 0 #
                      zero_stores n 0 ((unat (dyn_size (dyn n)) + 7) div 8) @
                      map_lookup_seq e n rec @ map_copy_seq n)"
  by (simp add: emit_map_load_full[OF assms(1,2)] emit_stack_zero_returns[OF assms(3)]
      insns_emits insns_emit)

text \<open>
  Claim C2, as stated, fails. The key-record offset, the node's offset and the node's
  declared size go into 32-bit immediates: with the key record at frame offset
  \<open>0x100000010\<close> the instruction that forms the key address adds 16, and for a node of
  \<open>0x100000008\<close> (4294967304) bytes the length passed to the copy is 8. For a node of
  \<open>2^64 - 1\<close> bytes the zero-fill loop never reaches the size, and \<^verbatim>\<open>emit_map_load\<close>
  does not return.
\<close>

theorem emit_map_load_counterexample:
  "outcome (emit_map_load env0 (wide_map_node 8 0x100000010) st0) =
     Some (0, [MOV_IMM 0 0, STXDW 10 0xFFF8 0,
               INSN (BPF_LD BPF_DW) 1 1 0 3, INSN (BPF_LD BPF_W) 0 0 0 0,
               MOV 2 10, ALU_IMM ALU_OP_ADD 2 0x10, CALL BPF_FUNC_map_lookup_elem,
               JMP_IMM JMP_JEQ 0 0 5,
               MOV 1 10, ALU_IMM ALU_OP_ADD 1 0xFFFFFFF8, MOV_IMM 2 8, MOV 3 0,
               CALL BPF_FUNC_probe_read]) \<and>
   unat (dyn_size (dyn (wide_map_node 0x100000008 (- 24)))) = 4294967304 \<and>
   outcome (emit_map_load env0 (wide_map_node 0x100000008 (- 24)) st0) =
     Some (0, MOV_IMM 0 0 # zero_stores (wide_map_node 0x100000008 (- 24)) 0 536870913 @
              [INSN (BPF_LD BPF_DW) 1 1 0 3, INSN (BPF_LD BPF_W) 0 0 0 0,
               MOV 2 10, ALU_IMM ALU_OP_ADD 2 0xFFFFFFE8, CALL BPF_FUNC_map_lookup_elem,
               JMP_IMM JMP_JEQ 0 0 5,
               MOV 1 10, ALU_IMM ALU_OP_ADD 1 0xFFFFFFF8, MOV_IMM 2 8, MOV 3 0,
               CALL BPF_FUNC_probe_read]) \<and>
   emit_map_load env0 (wide_map_node 0xFFFFFFFFFFFFFFFF (- 24)) st0 = None"
proof -
  let ?b = "wide_map_node 0x100000008 (- 24)"
  let ?c = "wide_map_node 0xFFFFFFFFFFFFFFFF (- 24)"
  have s0: "insns st0 = []" by (simp add: st0_def)
  have A: "outcome (emit_map_load env0 (wide_map_node 8 0x100000010) st0) =
     Some (0, [MOV_IMM 0 0, STXDW 10 0xFFF8 0,
               INSN (BPF_LD BPF_DW) 1 1 0 3, INSN (BPF_LD BPF_W) 0 0 0 0,
               MOV 2 10, ALU_IMM ALU_OP_ADD 2 0x10, CALL BPF_FUNC_map_lookup_elem,
               JMP_IMM JMP_JEQ 0 0 5,
               MOV 1 10, ALU_IMM ALU_OP_ADD 1 0xFFFFFFF8, MOV_IMM 2 8, MOV 3 0,
               CALL BPF_FUNC_probe_read])"
    by (simp add: outcome_def emit_map_load_def emit_stack_zero_def stack_zero_loop.simps
        wide_map_node_def stack_node_def no_parent_def emit_ld_mapfd_def st0_def env0_def
        emit_def dump_insn_def ALU_IMM_def MOV_IMM_def STXDW_def INSN_def)
  have bn: "\<not> plain_overwrite ?b"
    by (simp add: plain_overwrite_def wide_map_node_def no_parent_def)
  have bu: "u ?b = P_Map (stack_node (- 24) 16 (P_Rec []))" by (simp add: wide_map_node_def)
  have bs: "unat (dyn_size (dyn ?b)) = 4294967304" by (simp add: wide_map_node_def)
  have bl: "unat (dyn_size (dyn ?b)) \<le> 2 ^ 64 - 8" by (simp add: bs)
  have bm: "(unat (dyn_size (dyn ?b)) + 7) div 8 = 536870913" by (simp add: bs)
  have l: "map_lookup_seq env0 ?b (stack_node (- 24) 16 (P_Rec [])) =
      [INSN (BPF_LD BPF_DW) 1 1 0 3, INSN (BPF_LD BPF_W) 0 0 0 0,
       MOV 2 10, ALU_IMM ALU_OP_ADD 2 0xFFFFFFE8, CALL BPF_FUNC_map_lookup_elem,
       JMP_IMM JMP_JEQ 0 0 5]"
    by (simp add: map_lookup_seq_def env0_def stack_node_def ALU_IMM_def INSN_def)
  have q: "map_copy_seq ?b =
      [MOV 1 10, ALU_IMM ALU_OP_ADD 1 0xFFFFFFF8, MOV_IMM 2 8, MOV 3 0, CALL BPF_FUNC_probe_read]"
    by (simp add: map_copy_seq_def wide_map_node_def ALU_IMM_def MOV_IMM_def INSN_def)
  have B: "outcome (emit_map_load env0 ?b st0) =
     Some (0, MOV_IMM 0 0 # zero_stores ?b 0 536870913 @
              [INSN (BPF_LD BPF_DW) 1 1 0 3, INSN (BPF_LD BPF_W) 0 0 0 0,
               MOV 2 10, ALU_IMM ALU_OP_ADD 2 0xFFFFFFE8, CALL BPF_FUNC_map_lookup_elem,
               JMP_IMM JMP_JEQ 0 0 5,
               MOV 1 10, ALU_IMM ALU_OP_ADD 1 0xFFFFFFF8, MOV_IMM 2 8, MOV 3 0,
               CALL BPF_FUNC_probe_read])"
    unfolding emit_map_load_explicit[OF bn bu bl] bm l q s0 by simp
  have cn: "\<not> plain_overwrite ?c"
    by (simp add: plain_overwrite_def wide_map_node_def no_parent_def)
  have cs: "2 ^ 64 - 8 < unat (dyn_size (dyn ?c))" by (simp add: wide_map_node_def)
  have C: "emit_map_load env0 ?c st0 = None"
    by (rule emit_map_load_endless[OF cn cs])
  from A bs B C show ?thesis by blast
qed

text \<open>
  Claim C2, amended. \<^verbatim>\<open>emit_map_load\<close> on a map node returns with the buffer unchanged
  if and only if the node's parent is an assignment with the move operator. In every
  other case, when the node's declared size is at most \<open>2^64 - 8\<close>, it returns 0 and
  emits the zero-fill of the node followed by the lookup and the copy: the map handle
  into register 1, register 10 plus the key record's offset into register 2, the call of
  the lookup helper, a jump-if-equal-zero on register 0 whose offset is the length of the
  copy, and the copy itself (five instructions: register 10 plus the node's offset into
  register 1, the node's declared size into register 2, register 0 into register 3, the
  call of the safe-memory-copy helper). The two offsets and the size are what the 32-bit
  immediate holds of them; they are the key record's offset, the node's offset and the
  node's declared size whenever these fit a signed 32-bit value. For a declared size above
  \<open>2^64 - 8\<close> the zero-fill does not end and \<^verbatim>\<open>emit_map_load\<close> does not return.
\<close>

theorem emit_map_load_sequence:
  assumes "u n = P_Map rec"
  shows "(outcome (emit_map_load e n st) = Some (0, insns st) \<longleftrightarrow> plain_overwrite n) \<and>
         (\<not> plain_overwrite n \<longrightarrow>
            outcome (emit_map_load e n st) =
              (case outcome (emit_stack_zero e n st) of
                 None \<Rightarrow> None
               | Some (_, zs) \<Rightarrow> Some (0, zs @ map_lookup_seq e n rec @ map_copy_seq n))) \<and>
         (\<not> plain_overwrite n \<and> unat (dyn_size (dyn n)) \<le> 2 ^ 64 - 8 \<longrightarrow>
            outcome (emit_map_load e n st) =
              Some (0, insns st @
                         MOV_IMM BPF_REG_0 0 #
                         zero_stores n 0 ((unat (dyn_size (dyn n)) + 7) div 8) @
                         map_lookup_seq e n rec @ map_copy_seq n)) \<and>
         (\<not> plain_overwrite n \<and> 2 ^ 64 - 8 < unat (dyn_size (dyn n)) \<longrightarrow>
            emit_map_load e n st = None) \<and>
         map_lookup_seq e n rec =
           ld_mapfd e BPF_REG_1 (node_map_get_fd e n) @
           [MOV BPF_REG_2 BPF_REG_10,
            ALU_IMM ALU_OP_ADD BPF_REG_2 (ucast (dyn_addr (dyn rec))),
            CALL BPF_FUNC_map_lookup_elem,
            JMP_IMM JMP_JEQ BPF_REG_0 0 (of_nat (length (map_copy_seq n)))] \<and>
         map_copy_seq n =
           [MOV BPF_REG_1 BPF_REG_10,
            ALU_IMM ALU_OP_ADD BPF_REG_1 (ucast (dyn_addr (dyn n))),
            MOV_IMM BPF_REG_2 (ucast (dyn_size (dyn n))),
            MOV BPF_REG_3 BPF_REG_0,
            CALL BPF_FUNC_probe_read] \<and>
         (- 2147483648 \<le> sint (dyn_addr (dyn rec)) \<and> sint (dyn_addr (dyn rec)) < 2147483648 \<longrightarrow>
            sint (imm (rev (map_lookup_seq e n rec) ! 2)) = sint (dyn_addr (dyn rec))) \<and>
         (- 2147483648 \<le> sint (dyn_addr (dyn n)) \<and> sint (dyn_addr (dyn n)) < 2147483648 \<longrightarrow>
            sint (imm (map_copy_seq n ! 1)) = sint (dyn_addr (dyn n))) \<and>
         (unat (dyn_size (dyn n)) < 2147483648 \<longrightarrow>
            sint (imm (map_copy_seq n ! 2)) = int (unat (dyn_size (dyn n))))"
proof -
  have full: "outcome (emit_map_load e n st) =
              (case outcome (emit_stack_zero e n st) of
                 None \<Rightarrow> None
               | Some (_, zs) \<Rightarrow> Some (0, zs @ map_lookup_seq e n rec @ map_copy_seq n))"
    if "\<not> plain_overwrite n"
    by (rule emit_map_load_full[OF that assms])
  have iff: "outcome (emit_map_load e n st) = Some (0, insns st) \<longleftrightarrow> plain_overwrite n"
  proof (cases "plain_overwrite n")
    case True
    then show ?thesis by (simp add: emit_map_load_plain)
  next
    case False
    have "outcome (emit_map_load e n st) \<noteq> Some (0, insns st)"
    proof (cases "emit_stack_zero e n st")
      case None
      then show ?thesis by (simp add: full[OF False])
    next
      case (Some p)
      obtain r st1 where p: "p = (r, st1)" by (cases p)
      from emit_stack_zero_grows[OF Some[unfolded p]]
      obtain xs where "insns st1 = insns st @ MOV_IMM BPF_REG_0 0 # xs" by blast
      then show ?thesis by (simp add: full[OF False] Some p)
    qed
    with False show ?thesis by simp
  qed
  have expl: "outcome (emit_map_load e n st) =
              Some (0, insns st @
                         MOV_IMM BPF_REG_0 0 #
                         zero_stores n 0 ((unat (dyn_size (dyn n)) + 7) div 8) @
                         map_lookup_seq e n rec @ map_copy_seq n)"
    if "\<not> plain_overwrite n" "unat (dyn_size (dyn n)) \<le> 2 ^ 64 - 8"
    by (rule emit_map_load_explicit[OF that(1) assms that(2)])
  have endl: "emit_map_load e n st = None"
    if "\<not> plain_overwrite n" "2 ^ 64 - 8 < unat (dyn_size (dyn n))"
    by (rule emit_map_load_endless[OF that])
  have l: "map_lookup_seq e n rec =
           ld_mapfd e BPF_REG_1 (node_map_get_fd e n) @
           [MOV BPF_REG_2 BPF_REG_10,
            ALU_IMM ALU_OP_ADD BPF_REG_2 (ucast (dyn_addr (dyn rec))),
            CALL BPF_FUNC_map_lookup_elem,
            JMP_IMM JMP_JEQ BPF_REG_0 0 (of_nat (length (map_copy_seq n)))]"
    by (simp add: map_lookup_seq_def map_copy_seq_def)
  have c: "map_copy_seq n =
           [MOV BPF_REG_1 BPF_REG_10,
            ALU_IMM ALU_OP_ADD BPF_REG_1 (ucast (dyn_addr (dyn n))),
            MOV_IMM BPF_REG_2 (ucast (dyn_size (dyn n))),
            MOV BPF_REG_3 BPF_REG_0,
            CALL BPF_FUNC_probe_read]"
    by (simp add: map_copy_seq_def)
  have ik: "imm (rev (map_lookup_seq e n rec) ! 2) = ucast (dyn_addr (dyn rec))"
    by (simp add: map_lookup_seq_def ALU_IMM_def INSN_def)
  have ia: "imm (map_copy_seq n ! 1) = ucast (dyn_addr (dyn n))"
    by (simp add: map_copy_seq_def ALU_IMM_def INSN_def)
  have iz: "imm (map_copy_seq n ! 2) = ucast (dyn_size (dyn n))"
    by (simp add: map_copy_seq_def MOV_IMM_def INSN_def)
  have rk: "sint (imm (rev (map_lookup_seq e n rec) ! 2)) = sint (dyn_addr (dyn rec))"
    if "- 2147483648 \<le> sint (dyn_addr (dyn rec))" "sint (dyn_addr (dyn rec)) < 2147483648"
    unfolding ik by (rule sint_imm32_signed[OF that])
  have ra: "sint (imm (map_copy_seq n ! 1)) = sint (dyn_addr (dyn n))"
    if "- 2147483648 \<le> sint (dyn_addr (dyn n))" "sint (dyn_addr (dyn n)) < 2147483648"
    unfolding ia by (rule sint_imm32_signed[OF that])
  have rz: "sint (imm (map_copy_seq n ! 2)) = int (unat (dyn_size (dyn n)))"
    if "unat (dyn_size (dyn n)) < 2147483648"
    unfolding iz by (rule sint_imm32_unsigned[OF that])
  from iff full expl endl l c rk ra rz show ?thesis by blast
qed

theorem emit_map_load_sequence_witness:
  "u (map_node no_parent) = P_Map (stack_node (- 24) 16 (P_Rec [])) \<and>
   \<not> plain_overwrite (map_node no_parent) \<and>
   unat (dyn_size (dyn (map_node no_parent))) \<le> 2 ^ 64 - 8 \<and>
   outcome (emit_map_load env0 (map_node no_parent) st0) =
     Some (0, [MOV_IMM 0 0, STXDW 10 0xFFF8 0,
               INSN (BPF_LD BPF_DW) 1 1 0 3, INSN (BPF_LD BPF_W) 0 0 0 0,
               MOV 2 10, ALU_IMM ALU_OP_ADD 2 0xFFFFFFE8, CALL BPF_FUNC_map_lookup_elem,
               JMP_IMM JMP_JEQ 0 0 5,
               MOV 1 10, ALU_IMM ALU_OP_ADD 1 0xFFFFFFF8, MOV_IMM 2 8, MOV 3 0,
               CALL BPF_FUNC_probe_read]) \<and>
   sint (dyn_addr (dyn (stack_node (- 24) 16 (P_Rec [])))) = - 24 \<and>
   sint (imm (rev (map_lookup_seq env0 (map_node no_parent)
                     (stack_node (- 24) 16 (P_Rec []))) ! 2)) = - 24 \<and>
   sint (dyn_addr (dyn (map_node no_parent))) = - 8 \<and>
   sint (imm (map_copy_seq (map_node no_parent) ! 1)) = - 8 \<and>
   unat (dyn_size (dyn (map_node no_parent))) = 8 \<and>
   sint (imm (map_copy_seq (map_node no_parent) ! 2)) = 8 \<and>
   plain_overwrite (map_node \<lparr>parent_type = TYPE_ASSIGN, parent_assign_op = ALU_OP_MOV\<rparr>) \<and>
   outcome (emit_map_load env0
              (map_node \<lparr>parent_type = TYPE_ASSIGN, parent_assign_op = ALU_OP_MOV\<rparr>) st0) =
     Some (0, []) \<and>
   2 ^ 64 - 8 < unat (dyn_size (dyn (wide_map_node 0xFFFFFFFFFFFFFFFF (- 24)))) \<and>
   emit_map_load env0 (wide_map_node 0xFFFFFFFFFFFFFFFF (- 24)) st0 = None"
proof -
  let ?n = "map_node no_parent"
  let ?r = "stack_node (- 24) 16 (P_Rec [])"
  let ?p = "map_node \<lparr>parent_type = TYPE_ASSIGN, parent_assign_op = ALU_OP_MOV\<rparr>"
  let ?c = "wide_map_node 0xFFFFFFFFFFFFFFFF (- 24)"
  have s0: "insns st0 = []" by (simp add: st0_def)
  have a: "u ?n = P_Map ?r" by (simp add: map_node_def)
  have b: "\<not> plain_overwrite ?n" by (simp add: plain_overwrite_def map_node_def no_parent_def)
  have c: "unat (dyn_size (dyn ?n)) \<le> 2 ^ 64 - 8" by (simp add: map_node_def)
  have m: "(unat (dyn_size (dyn ?n)) + 7) div 8 = Suc 0" by (simp add: map_node_def)
  have z: "zero_stores ?n 0 (Suc 0) = [STXDW 10 0xFFF8 0]"
    by (simp add: zero_stores_def map_node_def STXDW_def INSN_def)
  have l: "map_lookup_seq env0 ?n ?r =
      [INSN (BPF_LD BPF_DW) 1 1 0 3, INSN (BPF_LD BPF_W) 0 0 0 0,
       MOV 2 10, ALU_IMM ALU_OP_ADD 2 0xFFFFFFE8, CALL BPF_FUNC_map_lookup_elem,
       JMP_IMM JMP_JEQ 0 0 5]"
    by (simp add: map_lookup_seq_def env0_def stack_node_def ALU_IMM_def INSN_def)
  have q: "map_copy_seq ?n =
      [MOV 1 10, ALU_IMM ALU_OP_ADD 1 0xFFFFFFF8, MOV_IMM 2 8, MOV 3 0, CALL BPF_FUNC_probe_read]"
    by (simp add: map_copy_seq_def map_node_def ALU_IMM_def MOV_IMM_def INSN_def)
  have ka: "sint (dyn_addr (dyn ?r)) = - 24" by (simp add: stack_node_def)
  have na: "sint (dyn_addr (dyn ?n)) = - 8" by (simp add: map_node_def)
  have nz: "unat (dyn_size (dyn ?n)) = 8" by (simp add: map_node_def)
  note T = emit_map_load_sequence[OF a, of env0 st0]
  from T b c
  have "outcome (emit_map_load env0 ?n st0) =
          Some (0, insns st0 @ MOV_IMM BPF_REG_0 0 #
                     zero_stores ?n 0 ((unat (dyn_size (dyn ?n)) + 7) div 8) @
                     map_lookup_seq env0 ?n ?r @ map_copy_seq ?n)"
    by blast
  then have A: "outcome (emit_map_load env0 ?n st0) =
     Some (0, [MOV_IMM 0 0, STXDW 10 0xFFF8 0,
               INSN (BPF_LD BPF_DW) 1 1 0 3, INSN (BPF_LD BPF_W) 0 0 0 0,
               MOV 2 10, ALU_IMM ALU_OP_ADD 2 0xFFFFFFE8, CALL BPF_FUNC_map_lookup_elem,
               JMP_IMM JMP_JEQ 0 0 5,
               MOV 1 10, ALU_IMM ALU_OP_ADD 1 0xFFFFFFF8, MOV_IMM 2 8, MOV 3 0,
               CALL BPF_FUNC_probe_read])"
    by (simp add: m z l q s0)
  from T have "- 2147483648 \<le> sint (dyn_addr (dyn ?r)) \<and> sint (dyn_addr (dyn ?r)) < 2147483648 \<longrightarrow>
            sint (imm (rev (map_lookup_seq env0 ?n ?r) ! 2)) = sint (dyn_addr (dyn ?r))"
    by blast
  then have K: "sint (imm (rev (map_lookup_seq env0 ?n ?r) ! 2)) = - 24"
    unfolding ka by simp
  from T have "- 2147483648 \<le> sint (dyn_addr (dyn ?n)) \<and> sint (dyn_addr (dyn ?n)) < 2147483648 \<longrightarrow>
            sint (imm (map_copy_seq ?n ! 1)) = sint (dyn_addr (dyn ?n))"
    by blast
  then have N: "sint (imm (map_copy_seq ?n ! 1)) = - 8"
    unfolding na by simp
  from T have "unat (dyn_size (dyn ?n)) < 2147483648 \<longrightarrow>
            sint (imm (map_copy_seq ?n ! 2)) = int (unat (dyn_size (dyn ?n)))"
    by blast
  then have Z: "sint (imm (map_copy_seq ?n ! 2)) = 8"
    unfolding nz by simp
  have pu: "u ?p = P_Map ?r" by (simp add: map_node_def)
  have pp: "plain_overwrite ?p" by (simp add: plain_overwrite_def map_node_def)
  from emit_map_load_sequence[OF pu, of env0 st0] pp
  have P: "outcome (emit_map_load env0 ?p st0) = Some (0, [])"
    unfolding s0 by blast
  have cu: "u ?c = P_Map ?r" by (simp add: wide_map_node_def)
  have cn: "\<not> plain_overwrite ?c"
    by (simp add: plain_overwrite_def wide_map_node_def no_parent_def)
  have cs: "2 ^ 64 - 8 < unat (dyn_size (dyn ?c))" by (simp add: wide_map_node_def)
  from emit_map_load_sequence[OF cu, of env0 st0] cn cs
  have C: "emit_map_load env0 ?c st0 = None" by blast
  from a b c A ka K na N nz Z pp P cs C show ?thesis by blast
qed

subsection \<open>Predicate and statements\<close>

lemma bind_err_Some [simp]:
  "bind_err (Some (err, st)) f = (if err \<noteq> 0 then Some (err, st) else f st)"
  by (simp add: bind_err_def)

lemma bind_err_None [simp]: "bind_err None f = None"
  by (simp add: bind_err_def)

lemma bind_err_return: "bind_err r (\<lambda>st. Some (0, st)) = r"
  by (cases r) (auto simp: bind_err_def)

lemma compile_walk_int:
  assumes "u n = P_Int i"
  shows "compile_walk e n st = Some (0, st)"
proof -
  obtain d p where "n = Node d p (P_Int i)" using assms by (cases n) simp
  then show ?thesis by (simp add: compile_walk_def compile_pre_def compile_post_def)
qed

text \<open>
  Claim C3. \<^verbatim>\<open>compile_pred\<close> without a predicate emits nothing. With an unresolved
  integer constant it emits the exit tail (zero into register 0, exit), after one
  unconditional jump of offset 2 when the constant is not zero. After the predicate's own
  code has been compiled, a register-resident predicate gets one jump-if-not-zero of
  offset 2 on its register and the tail; a stack-resident one a double-word load into
  register 0, the same jump on register 0 and the tail; an unresolved predicate that is
  not an integer constant fails with \<^verbatim>\<open>-EINVAL\<close>, reported as an unknown predicate
  location, and emits nothing more. (When the predicate's own code does not compile,
  \<^verbatim>\<open>compile_pred\<close> returns that failure and no gate.)
\<close>

theorem compile_pred_gate:
  "compile_pred e None st = Some (0, st) \<and>
   (u pred = P_Int i \<and> dyn_loc (dyn pred) = LOC_NOWHERE \<and> i = 0 \<longrightarrow>
      outcome (compile_pred e (Some pred) st) =
        Some (0, insns st @ [MOV_IMM BPF_REG_0 0, EXIT])) \<and>
   (u pred = P_Int i \<and> dyn_loc (dyn pred) = LOC_NOWHERE \<and> i \<noteq> 0 \<longrightarrow>
      outcome (compile_pred e (Some pred) st) =
        Some (0, insns st @ [JMP_IMM JMP_JA 0 0 2, MOV_IMM BPF_REG_0 0, EXIT])) \<and>
   (compile_walk e pred st = Some (0, st1) \<and> dyn_loc (dyn pred) = LOC_REG \<longrightarrow>
      outcome (compile_pred e (Some pred) st) =
        Some (0, insns st1 @
                   [JMP_IMM JMP_JNE (ucast (dyn_reg (dyn pred))) 0 2,
                    MOV_IMM BPF_REG_0 0, EXIT])) \<and>
   (compile_walk e pred st = Some (0, st1) \<and> dyn_loc (dyn pred) = LOC_STACK \<longrightarrow>
      outcome (compile_pred e (Some pred) st) =
        Some (0, insns st1 @
                   [LDXDW BPF_REG_0 (ucast (dyn_addr (dyn pred))) BPF_REG_10,
                    JMP_IMM JMP_JNE BPF_REG_0 0 2,
                    MOV_IMM BPF_REG_0 0, EXIT])) \<and>
   (compile_walk e pred st = Some (0, st1) \<and> dyn_loc (dyn pred) = LOC_NOWHERE \<and>
    ntype pred \<noteq> TYPE_INT \<longrightarrow>
      compile_pred e (Some pred) st =
        Some (- EINVAL, log_e ''unknown predicate location'' st1) \<and>
      outcome (compile_pred e (Some pred) st) = Some (- EINVAL, insns st1)) \<and>
   (compile_walk e pred st = Some (err, st1) \<and> err \<noteq> 0 \<longrightarrow>
      compile_pred e (Some pred) st = Some (err, st1)) \<and>
   (compile_walk e pred st = None \<longrightarrow> compile_pred e (Some pred) st = None)"
proof -
  have a: "compile_pred e None st = Some (0, st)"
    by (simp add: compile_pred_def)
  have b: "outcome (compile_pred e (Some pred) st) =
             Some (0, insns st @ [MOV_IMM BPF_REG_0 0, EXIT])"
    if "u pred = P_Int i" "dyn_loc (dyn pred) = LOC_NOWHERE" "i = 0"
    using that by (simp add: compile_pred_def compile_walk_int insns_emit)
  have c: "outcome (compile_pred e (Some pred) st) =
             Some (0, insns st @ [JMP_IMM JMP_JA 0 0 2, MOV_IMM BPF_REG_0 0, EXIT])"
    if "u pred = P_Int i" "dyn_loc (dyn pred) = LOC_NOWHERE" "i \<noteq> 0"
    using that by (simp add: compile_pred_def compile_walk_int insns_emit)
  have d: "outcome (compile_pred e (Some pred) st) =
             Some (0, insns st1 @
                   [JMP_IMM JMP_JNE (ucast (dyn_reg (dyn pred))) 0 2, MOV_IMM BPF_REG_0 0, EXIT])"
    if "compile_walk e pred st = Some (0, st1)" "dyn_loc (dyn pred) = LOC_REG"
    using that by (simp add: compile_pred_def insns_emit)
  have f: "outcome (compile_pred e (Some pred) st) =
             Some (0, insns st1 @
                   [LDXDW BPF_REG_0 (ucast (dyn_addr (dyn pred))) BPF_REG_10,
                    JMP_IMM JMP_JNE BPF_REG_0 0 2, MOV_IMM BPF_REG_0 0, EXIT])"
    if "compile_walk e pred st = Some (0, st1)" "dyn_loc (dyn pred) = LOC_STACK"
    using that by (simp add: compile_pred_def insns_emit)
  have g: "compile_pred e (Some pred) st =
             Some (- EINVAL, log_e ''unknown predicate location'' st1)"
    if "compile_walk e pred st = Some (0, st1)" "dyn_loc (dyn pred) = LOC_NOWHERE"
       "ntype pred \<noteq> TYPE_INT"
    using that by (cases "u pred") (simp_all add: compile_pred_def ntype_def)
  have h: "compile_pred e (Some pred) st = Some (err, st1)"
    if "compile_walk e pred st = Some (err, st1)" "err \<noteq> 0"
    using that by (simp add: compile_pred_def)
  have k: "compile_pred e (Some pred) st = None" if "compile_walk e pred st = None"
    using that by (simp add: compile_pred_def)
  from a b c d f g h k show ?thesis by simp
qed

theorem compile_pred_gate_witness:
  "compile_pred env0 None st0 = Some (0, st0) \<and>
   u (nowhere_node (P_Int 0)) = P_Int 0 \<and> dyn_loc (dyn (nowhere_node (P_Int 0))) = LOC_NOWHERE \<and>
   outcome (compile_pred env0 (Some (nowhere_node (P_Int 0))) st0) =
     Some (0, [MOV_IMM 0 0, EXIT]) \<and>
   u (nowhere_node (P_Int 5)) = P_Int 5 \<and> dyn_loc (dyn (nowhere_node (P_Int 5))) = LOC_NOWHERE \<and>
   outcome (compile_pred env0 (Some (nowhere_node (P_Int 5))) st0) =
     Some (0, [JMP_IMM JMP_JA 0 0 2, MOV_IMM 0 0, EXIT]) \<and>
   compile_walk env0 (reg_node 7 (P_Call [])) st0 =
     Some (0, emit env0 (CALL BPF_FUNC_ktime_get_ns) st0) \<and>
   dyn_loc (dyn (reg_node 7 (P_Call []))) = LOC_REG \<and>
   outcome (compile_pred env0 (Some (reg_node 7 (P_Call []))) st0) =
     Some (0, [CALL BPF_FUNC_ktime_get_ns, JMP_IMM JMP_JNE 7 0 2, MOV_IMM 0 0, EXIT]) \<and>
   compile_walk env0 (stack_node (- 8) 8 (P_Call [])) st0 =
     Some (0, emit env0 (CALL BPF_FUNC_ktime_get_ns) st0) \<and>
   dyn_loc (dyn (stack_node (- 8) 8 (P_Call []))) = LOC_STACK \<and>
   outcome (compile_pred env0 (Some (stack_node (- 8) 8 (P_Call []))) st0) =
     Some (0, [CALL BPF_FUNC_ktime_get_ns, LDXDW 0 0xFFF8 10, JMP_IMM JMP_JNE 0 0 2,
               MOV_IMM 0 0, EXIT]) \<and>
   compile_walk env0 (nowhere_node (P_Call [])) st0 =
     Some (0, emit env0 (CALL BPF_FUNC_ktime_get_ns) st0) \<and>
   dyn_loc (dyn (nowhere_node (P_Call []))) = LOC_NOWHERE \<and>
   ntype (nowhere_node (P_Call [])) = TYPE_CALL \<and>
   outcome (compile_pred env0 (Some (nowhere_node (P_Call []))) st0) =
     Some (- 22, [CALL BPF_FUNC_ktime_get_ns])"
proof -
  let ?z = "nowhere_node (P_Int 0)"
  let ?q = "nowhere_node (P_Int 5)"
  let ?p = "reg_node 7 (P_Call [])"
  let ?k = "stack_node (- 8) 8 (P_Call [])"
  let ?n = "nowhere_node (P_Call [])"
  let ?s1 = "emit env0 (CALL BPF_FUNC_ktime_get_ns) st0"
  have s0: "insns st0 = []" by (simp add: st0_def)
  have i: "insns ?s1 = [CALL BPF_FUNC_ktime_get_ns]" by (simp add: insns_emit s0)
  have z1: "u ?z = P_Int 0" and z2: "dyn_loc (dyn ?z) = LOC_NOWHERE"
    by (simp_all add: nowhere_node_def)
  have q1: "u ?q = P_Int 5" and q2: "dyn_loc (dyn ?q) = LOC_NOWHERE"
    by (simp_all add: nowhere_node_def)
  have q3: "(5 :: 64 word) \<noteq> 0" by simp
  have pw: "compile_walk env0 ?p st0 = Some (0, ?s1)"
    by (simp add: compile_walk_def compile_pre_def compile_post_def reg_node_def env0_def)
  have pl: "dyn_loc (dyn ?p) = LOC_REG" by (simp add: reg_node_def)
  have pr: "(ucast (dyn_reg (dyn ?p)) :: 4 word) = 7" by (simp add: reg_node_def)
  have kw: "compile_walk env0 ?k st0 = Some (0, ?s1)"
    by (simp add: compile_walk_def compile_pre_def compile_post_def stack_node_def env0_def)
  have kl: "dyn_loc (dyn ?k) = LOC_STACK" by (simp add: stack_node_def)
  have ka: "(ucast (dyn_addr (dyn ?k)) :: 16 word) = 0xFFF8" by (simp add: stack_node_def)
  have nw: "compile_walk env0 ?n st0 = Some (0, ?s1)"
    by (simp add: compile_walk_def compile_pre_def compile_post_def nowhere_node_def env0_def)
  have nl: "dyn_loc (dyn ?n) = LOC_NOWHERE" by (simp add: nowhere_node_def)
  have nt: "ntype ?n = TYPE_CALL" by (simp add: ntype_def nowhere_node_def)
  then have nt': "ntype ?n \<noteq> TYPE_INT" by simp
  from compile_pred_gate[of env0 st0 ?z 0 st0 0]
  have N: "compile_pred env0 None st0 = Some (0, st0)" by blast
  from compile_pred_gate[of env0 st0 ?z 0 st0 0] z1 z2
  have Z: "outcome (compile_pred env0 (Some ?z) st0) =
        Some (0, insns st0 @ [MOV_IMM BPF_REG_0 0, EXIT])"
    by blast
  from compile_pred_gate[of env0 st0 ?q 5 st0 0] q1 q2 q3
  have Q: "outcome (compile_pred env0 (Some ?q) st0) =
        Some (0, insns st0 @ [JMP_IMM JMP_JA 0 0 2, MOV_IMM BPF_REG_0 0, EXIT])"
    by blast
  from compile_pred_gate[of env0 st0 ?p 5 ?s1 0] pw pl
  have P: "outcome (compile_pred env0 (Some ?p) st0) =
        Some (0, insns ?s1 @ [JMP_IMM JMP_JNE (ucast (dyn_reg (dyn ?p))) 0 2,
                    MOV_IMM BPF_REG_0 0, EXIT])"
    by blast
  from compile_pred_gate[of env0 st0 ?k 5 ?s1 0] kw kl
  have K: "outcome (compile_pred env0 (Some ?k) st0) =
        Some (0, insns ?s1 @ [LDXDW BPF_REG_0 (ucast (dyn_addr (dyn ?k))) BPF_REG_10,
                    JMP_IMM JMP_JNE BPF_REG_0 0 2, MOV_IMM BPF_REG_0 0, EXIT])"
    by blast
  from compile_pred_gate[of env0 st0 ?n 5 ?s1 0] nw nl nt'
  have E: "outcome (compile_pred env0 (Some ?n) st0) = Some (- EINVAL, insns ?s1)"
    by blast
  show ?thesis
    using N Z Q P K E z1 z2 q1 q2 pw pl kw kl nw nl nt
    by (simp add: pr ka i s0)
qed

lemma compile_stmts_snoc:
  "compile_stmts e (ss @ [s]) st = bind_err (compile_stmts e ss st) (compile_walk e s)"
proof (induction ss arbitrary: st)
  case Nil
  show ?case by (simp add: bind_err_return)
next
  case (Cons a ss)
  show ?case
  proof (cases "compile_walk e a st")
    case None
    then show ?thesis by simp
  next
    case (Some p)
    obtain err st1 where p: "p = (err, st1)" by (cases p)
    show ?thesis
    proof (cases ss)
      case Nil
      then show ?thesis using Some p by (simp add: bind_err_return)
    next
      case (Cons b ss')
      then show ?thesis using Some p Cons.IH[of st1] by simp
    qed
  qed
qed

text \<open>
  Claim C5. When the predicate and every statement of a probe compile, the program
  \<^verbatim>\<open>compile_probe\<close> returns is the buffer as it is after the last statement's code,
  followed by the two-instruction tail (zero into register 0, exit) if the last statement
  is not a return, and by nothing if it is.
\<close>

theorem compile_probe_tail:
  assumes "u probe = P_Probe pred (ss @ [s])"
    and "compile_pred e pred (emit e (MOV BPF_REG_9 BPF_REG_1) (st\<lparr>insns := []\<rparr>)) = Some (0, st1)"
    and "compile_stmts e ss st1 = Some (0, st2)"
    and "compile_walk e s st2 = Some (0, st3)"
  shows "map_option fst (compile_probe e True probe st) =
           Some (Some (insns st3 @
                   (if ntype s = TYPE_RETURN then [] else [MOV_IMM BPF_REG_0 0, EXIT])))"
proof -
  have "compile_stmts e (ss @ [s]) st1 = Some (0, st3)"
    using assms(3,4) by (simp add: compile_stmts_snoc)
  then show ?thesis
    using assms(1,2) by (simp add: compile_probe_def Let_def insns_emit)
qed

theorem compile_probe_tail_witness:
  "u (probe_of ([] @ [nowhere_node (P_Int 1)])) = P_Probe None ([] @ [nowhere_node (P_Int 1)]) \<and>
   compile_pred env0 None (emit env0 (MOV 9 1) (st0\<lparr>insns := []\<rparr>)) =
     Some (0, emit env0 (MOV 9 1) st0) \<and>
   compile_stmts env0 [] (emit env0 (MOV 9 1) st0) = Some (0, emit env0 (MOV 9 1) st0) \<and>
   compile_walk env0 (nowhere_node (P_Int 1)) (emit env0 (MOV 9 1) st0) =
     Some (0, emit env0 (MOV 9 1) st0) \<and>
   map_option fst (compile_probe env0 True (probe_of ([] @ [nowhere_node (P_Int 1)])) st0) =
     Some (Some [MOV 9 1, MOV_IMM 0 0, EXIT]) \<and>
   u (probe_of ([] @ [nowhere_node (P_Return (nowhere_node (P_Int 1)))])) =
     P_Probe None ([] @ [nowhere_node (P_Return (nowhere_node (P_Int 1)))]) \<and>
   compile_walk env0 (nowhere_node (P_Return (nowhere_node (P_Int 1)))) (emit env0 (MOV 9 1) st0) =
     Some (0, emit env0 (MOV 9 1) st0) \<and>
   map_option fst
     (compile_probe env0 True (probe_of ([] @ [nowhere_node (P_Return (nowhere_node (P_Int 1)))])) st0) =
     Some (Some [MOV 9 1])"
proof -
  let ?s0 = "emit env0 (MOV 9 1) st0"
  let ?a = "nowhere_node (P_Int 1)"
  let ?b = "nowhere_node (P_Return (nowhere_node (P_Int 1)))"
  have e0: "emit env0 (MOV 9 1) (st0\<lparr>insns := []\<rparr>) = ?s0" by (simp add: st0_def)
  have u1: "u (probe_of ([] @ [?a])) = P_Probe None ([] @ [?a])"
    by (simp add: probe_of_def nowhere_node_def)
  have u2: "u (probe_of ([] @ [?b])) = P_Probe None ([] @ [?b])"
    by (simp add: probe_of_def nowhere_node_def)
  have p: "compile_pred env0 None (emit env0 (MOV 9 1) (st0\<lparr>insns := []\<rparr>)) = Some (0, ?s0)"
    by (simp add: compile_pred_def e0)
  have c: "compile_stmts env0 [] ?s0 = Some (0, ?s0)" by simp
  have w1: "compile_walk env0 ?a ?s0 = Some (0, ?s0)"
    by (simp add: compile_walk_def compile_pre_def compile_post_def nowhere_node_def)
  have w2: "compile_walk env0 ?b ?s0 = Some (0, ?s0)"
    by (simp add: compile_walk_def compile_pre_def compile_post_def nowhere_node_def)
  have t1: "ntype ?a \<noteq> TYPE_RETURN" by (simp add: ntype_def nowhere_node_def)
  have t2: "ntype ?b = TYPE_RETURN" by (simp add: ntype_def nowhere_node_def)
  have i: "insns ?s0 = [MOV 9 1]" by (simp add: insns_emit st0_def)
  show ?thesis
    using compile_probe_tail[OF u1 p c w1] compile_probe_tail[OF u2 p c w2] u1 u2 p c w1 w2
    by (simp add: t1 t2 i)
qed

subsection \<open>The diagnostic flag\<close>

lemma same_ext_dump: "same_ext (e\<lparr>dump := a\<rparr>) (e\<lparr>dump := b\<rparr>)"
  by (simp add: same_ext_def)

text \<open>
  Claim C9. \<^verbatim>\<open>emit\<close> appends the same instruction to the buffer whether the \<^verbatim>\<open>dump\<close>
  flag is set or not; the flag decides only whether a line goes to the diagnostic
  stream. Hence the program (or the failure) that \<^verbatim>\<open>compile_probe\<close> returns is the same
  for both values of the flag, from any two states.
\<close>

theorem dump_flag_only_diagnostics:
  "insns (emit (e\<lparr>dump := True\<rparr>) insn st) = insns (emit (e\<lparr>dump := False\<rparr>) insn st) \<and>
   insns (emit (e\<lparr>dump := b\<rparr>) insn st) = insns st @ [insn] \<and>
   stderr (emit (e\<lparr>dump := False\<rparr>) insn st) = stderr st \<and>
   stderr (emit (e\<lparr>dump := True\<rparr>) insn st) = stderr st @ [Dump (dump_ip st) insn] \<and>
   map_option fst (compile_probe (e\<lparr>dump := True\<rparr>) alloc_ok probe st) =
     map_option fst (compile_probe (e\<lparr>dump := False\<rparr>) alloc_ok probe st')"
proof -
  have "map_option fst (compile_probe (e\<lparr>dump := True\<rparr>) alloc_ok probe st) =
        map_option fst (compile_probe (e\<lparr>dump := False\<rparr>) alloc_ok probe st')"
    by (rule compile_probe_same[OF same_ext_dump])
  then show ?thesis
    by (simp add: insns_emit) (simp add: emit_def dump_insn_def)
qed

theorem dump_flag_only_diagnostics_witness:
  "insns (emit (env0\<lparr>dump := True\<rparr>) EXIT st0) = insns (emit (env0\<lparr>dump := False\<rparr>) EXIT st0) \<and>
   insns (emit (env0\<lparr>dump := True\<rparr>) EXIT st0) = [EXIT] \<and>
   stderr (emit (env0\<lparr>dump := True\<rparr>) EXIT st0) = [Dump 0 EXIT] \<and>
   stderr (emit (env0\<lparr>dump := False\<rparr>) EXIT st0) = [] \<and>
   map_option fst (compile_probe (env0\<lparr>dump := True\<rparr>) True (probe_of [nowhere_node (P_Int 1)]) st0) =
     map_option fst (compile_probe (env0\<lparr>dump := False\<rparr>) True (probe_of [nowhere_node (P_Int 1)]) st0)"
proof -
  have s0: "insns st0 = []" "stderr st0 = []" "dump_ip st0 = 0" by (simp_all add: st0_def)
  note T = dump_flag_only_diagnostics[of env0 EXIT st0 True True "probe_of [nowhere_node (P_Int 1)]" st0,
      unfolded s0 append_Nil]
  from T have a: "insns (emit (env0\<lparr>dump := True\<rparr>) EXIT st0) =
                  insns (emit (env0\<lparr>dump := False\<rparr>) EXIT st0)" by blast
  from T have b: "insns (emit (env0\<lparr>dump := True\<rparr>) EXIT st0) = [EXIT]"
    by blast
  from T have c: "stderr (emit (env0\<lparr>dump := True\<rparr>) EXIT st0) = [Dump 0 EXIT]"
    by blast
  from T have d: "stderr (emit (env0\<lparr>dump := False\<rparr>) EXIT st0) = []"
    by blast
  from T have f: "map_option fst (compile_probe (env0\<lparr>dump := True\<rparr>) True
                     (probe_of [nowhere_node (P_Int 1)]) st0) =
                  map_option fst (compile_probe (env0\<lparr>dump := False\<rparr>) True
                     (probe_of [nowhere_node (P_Int 1)]) st0)" by blast
  from a b c d f show ?thesis by blast
qed

end
